theory Spec2Isabelle
  imports Complex_Main "HOL-Library.Log_Nat"
begin

section \<open>Errors and tensors\<close>

text \<open>
  The exceptions the modelled code can raise. \<open>RuntimeError\<close> is what PyTorch raises for
  a shape mismatch, a negative dimension or an empty random range; \<open>CollectiveError\<close>
  stands for a collective operation that cannot complete because a peer did not supply
  a tensor of the agreed shape.
\<close>

datatype error =
    AssertionError
  | RuntimeError
  | ZeroDivisionError
  | IndexError
  | ValueError
  | TypeError
  | NotImplementedError
  | UnboundLocalError
  | CollectiveError

text \<open>
  A two-dimensional float tensor of shape \<open>[size0, size1]\<close>. The number of columns is
  kept beside the rows, since a tensor with no row still has a width
  (\<^verbatim>\<open>torch.zeros([0, 128])\<close>). An entry is the value of a float32 number, as a real
  number. Moving, copying and comparing entries is exact; the library kernels that
  round are not computed here, they are parameters (see \<open>kernels\<close> below).
\<close>

record tensor =
  size1 :: nat
  rows :: "real list list"

definition size0 :: "tensor \<Rightarrow> nat" where
  "size0 t = length (rows t)"

definition wf_tensor :: "tensor \<Rightarrow> bool" where
  "wf_tensor t \<longleftrightarrow> list_all (\<lambda>r. length r = size1 t) (rows t)"

text \<open>\<^verbatim>\<open>torch.zeros(n, d)\<close>\<close>

definition zeros :: "nat \<Rightarrow> nat \<Rightarrow> tensor" where
  "zeros n d = \<lparr>size1 = d, rows = replicate n (replicate d 0)\<rparr>"

text \<open>\<^verbatim>\<open>torch.cat(ts, dim=0)\<close>: the tensors must agree on the other dimension.\<close>

definition cat0 :: "tensor list \<Rightarrow> error + tensor" where
  "cat0 ts =
     (case ts of
        [] \<Rightarrow> Inl RuntimeError
      | t # _ \<Rightarrow>
          if list_all (\<lambda>u. size1 u = size1 t) ts
          then Inr \<lparr>size1 = size1 t, rows = concat (map rows ts)\<rparr>
          else Inl RuntimeError)"

text \<open>\<^verbatim>\<open>f[:n, :]\<close> and \<^verbatim>\<open>f[n:]\<close>\<close>

definition take_rows :: "nat \<Rightarrow> tensor \<Rightarrow> tensor" where
  "take_rows n f = f\<lparr>rows := take n (rows f)\<rparr>"

definition drop_rows :: "nat \<Rightarrow> tensor \<Rightarrow> tensor" where
  "drop_rows n f = f\<lparr>rows := drop n (rows f)\<rparr>"

text \<open>
  Broadcasting a source of shape \<open>[m, e]\<close> to the shape \<open>[n, d]\<close> of an assignment's
  target: a dimension must agree or be 1 in the source.
\<close>

definition expand_to :: "nat \<Rightarrow> nat \<Rightarrow> tensor \<Rightarrow> real list list option" where
  "expand_to n d src =
     (if (size0 src = n \<or> size0 src = 1) \<and> (size1 src = d \<or> size1 src = 1)
      then Some (map (\<lambda>r. if size1 src = d then r else replicate d (hd r))
                   (if size0 src = n then rows src else replicate n (hd (rows src))))
      else None)"

text \<open>
  \<^verbatim>\<open>q[a:b, :] = src\<close> for \<open>0 \<le> a\<close>, \<open>0 \<le> b\<close>: the slice is clamped to the rows
  \<open>q\<close> has, and the source must broadcast to the slice's shape.
\<close>

definition slice_assign :: "tensor \<Rightarrow> nat \<Rightarrow> nat \<Rightarrow> tensor \<Rightarrow> error + tensor" where
  "slice_assign q a b src =
     (let lo = min a (size0 q);
          hi = max lo (min b (size0 q))
      in case expand_to (hi - lo) (size1 q) src of
           None \<Rightarrow> Inl RuntimeError
         | Some rs \<Rightarrow> Inr (q\<lparr>rows := take lo (rows q) @ rs @ drop hi (rows q)\<rparr>))"

subsection \<open>Norms\<close>

definition l2norm :: "real list \<Rightarrow> real" where
  "l2norm r = sqrt (sum_list (map (\<lambda>x. x\<^sup>2) r))"

text \<open>A row is normalised up to \<open>tol\<close> when its norm is within \<open>tol\<close> of 1.\<close>

definition unit_row :: "real \<Rightarrow> real list \<Rightarrow> bool" where
  "unit_row tol r \<longleftrightarrow> \<bar>l2norm r - 1\<bar> \<le> tol"

definition unit_rows :: "real \<Rightarrow> tensor \<Rightarrow> bool" where
  "unit_rows tol t \<longleftrightarrow> list_all (unit_row tol) (rows t)"

subsection \<open>Library kernels\<close>

text \<open>
  A per-image transform matrix: the 3 by 3 matrix of a 2-D transform in homogeneous
  coordinates, row by row, with float32 entries.
\<close>

datatype mat3 = Mat3 real real real  real real real  real real real

definition identity3 :: mat3 where
  "identity3 = Mat3 1 0 0  0 1 0  0 0 1"

text \<open>
  The numeric kernels of PyTorch that the file calls on float32 tensors. They are
  library code, and what they return to the last bit depends on the device and on the
  order in which the library adds, so they are parameters of the model:
  \<^item> \<open>normalize_row\<close>: what \<^verbatim>\<open>F.normalize(x, dim=1)\<close> makes of one row of \<open>x\<close> (it divides each
    row by the larger of its norm and \<open>eps = 1e-12\<close>, row by row);
  \<^item> \<open>matmul\<close>: \<^verbatim>\<open>x @ y\<close> for two 3 by 3 matrices;
  \<^item> \<open>inverse3\<close>: \<^verbatim>\<open>m.inverse()\<close>, which raises when it finds the matrix singular.
\<close>

record kernels =
  normalize_row :: "real list \<Rightarrow> real list"
  matmul :: "mat3 \<Rightarrow> mat3 \<Rightarrow> mat3"
  inverse3 :: "mat3 \<Rightarrow> error + mat3"

text \<open>\<^verbatim>\<open>F.normalize(x, dim=1)\<close> on a tensor.\<close>

definition normalize :: "kernels \<Rightarrow> tensor \<Rightarrow> tensor" where
  "normalize kn t = t\<lparr>rows := map (normalize_row kn) (rows t)\<rparr>"

section \<open>The detector's state\<close>

text \<open>
  The fields of \<^verbatim>\<open>SoftTeacher\<close> that the contrastive queue and losses use, and the
  pieces of the process state around it:
  \<^item> \<open>rand_pos\<close>: how many values have been taken from the sources of randomness (torch's
    generator and the labelled dataset's lookups);
  \<^item> \<open>enqueue_log\<close>: the arguments \<^verbatim>\<open>_dequeue_and_enqueue\<close> has been called with so far,
    newest last, kept so that call counts can be stated;
  \<^item> \<open>box_lists\<close>, \<open>label_lists\<close>, \<open>next_ref\<close>: the Python list objects that hold per-image
    box tensors and label tensors, by address, and the next unused address. A list is
    passed by reference, so an assignment to one of its entries is seen by everyone who
    holds the list.
\<close>

type_synonym ref = nat

record state =
  memory_k :: nat
  projector_dim :: nat
  ctr1_T :: real
  ctr2_T :: real
  ctr2_num :: int
  queue_vector :: tensor
  queue_ptr :: nat
  rand_pos :: nat
  enqueue_log :: "tensor list"
  box_lists :: "ref \<Rightarrow> tensor list"
  label_lists :: "ref \<Rightarrow> int list list"
  next_ref :: ref

text \<open>
  \<^verbatim>\<open>torch.randn(k, d)\<close>: the draws are taken from a source \<open>src\<close>, entry \<open>(i, j)\<close> being
  draw number \<open>i * d + j\<close>.
\<close>

definition randn :: "(nat \<Rightarrow> real) \<Rightarrow> nat \<Rightarrow> nat \<Rightarrow> tensor" where
  "randn src k d = \<lparr>size1 = d, rows = map (\<lambda>i. map (\<lambda>j. src (i * d + j)) [0..<d]) [0..<k]\<rparr>"

text \<open>
  \<^verbatim>\<open>SoftTeacher.__init__\<close>, lines 29-41: the queue is a normalised random matrix of
  shape \<open>[memory_k, projector_dim]\<close> and the cursor is 0.
\<close>

definition soft_teacher_init ::
  "nat \<Rightarrow> nat \<Rightarrow> real \<Rightarrow> real \<Rightarrow> int \<Rightarrow> kernels \<Rightarrow> (nat \<Rightarrow> real) \<Rightarrow> state" where
  "soft_teacher_init k d t1 t2 n2 kn src =
     \<lparr>memory_k = k, projector_dim = d, ctr1_T = t1, ctr2_T = t2, ctr2_num = n2,
      queue_vector = normalize kn (randn src k d),
      queue_ptr = 0, rand_pos = 0, enqueue_log = [],
      box_lists = (\<lambda>_. []), label_lists = (\<lambda>_. []), next_ref = 0\<rparr>"

section \<open>Gathering features across workers\<close>

text \<open>
  \<^verbatim>\<open>local_batch.float()\<close> followed by \<^verbatim>\<open>int(bs.item())\<close>: a size travels as a float32,
  which keeps 24 significant bits (round to nearest, ties to even).
\<close>

definition float32_of_nat :: "nat \<Rightarrow> nat" where
  "float32_of_nat n =
     (let e = floorlog 2 n - 24;
          q = n div 2 ^ e;
          r = n mod 2 ^ e
      in (if 2 ^ e < 2 * r \<or> (2 * r = 2 ^ e \<and> odd q) then q + 1 else q) * 2 ^ e)"

text \<open>
  Lines 474-477 on one worker: the local tensor is padded with zero rows up to
  \<open>max_batch\<close>; \<^verbatim>\<open>torch.zeros\<close> refuses a negative row count.
\<close>

definition pad_rows :: "nat \<Rightarrow> tensor \<Rightarrow> error + tensor" where
  "pad_rows max_batch features =
     (if max_batch < size0 features then Inl RuntimeError
      else cat0 [features, zeros (max_batch - size0 features) (size1 features)])"

fun those_padded :: "(error + tensor) list \<Rightarrow> tensor list option" where
  "those_padded [] = Some []"
| "those_padded (Inl e # xs) = None"
| "those_padded (Inr t # xs) = map_option ((#) t) (those_padded xs)"

text \<open>
  \<^verbatim>\<open>concat_all_gather\<close> as run by one worker. \<open>before\<close> and \<open>after\<close> are the tensors the
  workers of lower and of higher rank pass to the same call, so that
  \<open>before @ [features] @ after\<close> lists every worker's argument in rank order and
  \<^verbatim>\<open>all_gather\<close> hands every worker that list. Each peer runs the same code: the
  second gather completes only if every worker built its padded tensor and all have
  the shape of the local receive buffers.
\<close>

definition concat_all_gather :: "tensor list \<Rightarrow> tensor list \<Rightarrow> tensor \<Rightarrow> error + tensor" where
  "concat_all_gather before after features =
     (let world = before @ [features] @ after;
          batch_size_gather = map (\<lambda>t. float32_of_nat (size0 t)) world;
          max_batch = Max (set batch_size_gather)
      in case pad_rows max_batch features of
           Inl e \<Rightarrow> Inl e
         | Inr padded \<Rightarrow>
             (case those_padded (map (pad_rows max_batch) world) of
                None \<Rightarrow> Inl CollectiveError
              | Some features_gather \<Rightarrow>
                  if list_all (\<lambda>f. size1 f = size1 padded) features_gather
                  then cat0 (map (\<lambda>(bs, f). take_rows bs f) (zip batch_size_gather features_gather))
                  else Inl CollectiveError))"

section \<open>The feature memory queue\<close>

text \<open>
  \<^verbatim>\<open>_dequeue_and_enqueue\<close>, lines 491-515. The result is the state the call leaves
  behind, with the exception it raised, if any: the two slice assignments of the
  wrapping branch are separate statements, so the first has taken effect when the
  second raises.
\<close>

definition dequeue_and_enqueue ::
  "tensor list \<Rightarrow> tensor list \<Rightarrow> tensor \<Rightarrow> state \<Rightarrow> error option \<times> state" where
  "dequeue_and_enqueue before after features s0 =
     (let s = s0\<lparr>enqueue_log := enqueue_log s0 @ [features]\<rparr> in
      case concat_all_gather before after features of
        Inl e \<Rightarrow> (Some e, s)
      | Inr feats \<Rightarrow>
          let batch_size = size0 feats in
          if batch_size = 0 then (None, s)
          else if size1 feats \<noteq> projector_dim s then (Some AssertionError, s)
          else
            let ptr = queue_ptr s in
            if ptr + batch_size \<ge> memory_k s then
              (let redundant = ptr + batch_size - memory_k s in
               case slice_assign (queue_vector s) ptr (memory_k s)
                      (take_rows (batch_size - redundant) feats) of
                 Inl e \<Rightarrow> (Some e, s)
               | Inr q1 \<Rightarrow>
                   (case slice_assign q1 0 redundant
                           (drop_rows (batch_size - redundant) feats) of
                      Inl e \<Rightarrow> (Some e, s\<lparr>queue_vector := q1\<rparr>)
                    | Inr q2 \<Rightarrow>
                        if memory_k s = 0 then (Some ZeroDivisionError, s\<lparr>queue_vector := q2\<rparr>)
                        else (None, s\<lparr>queue_vector := q2,
                                       queue_ptr := (ptr + batch_size) mod memory_k s\<rparr>)))
            else
              (case slice_assign (queue_vector s) ptr (ptr + batch_size) feats of
                 Inl e \<Rightarrow> (Some e, s)
               | Inr q1 \<Rightarrow>
                   if memory_k s = 0 then (Some ZeroDivisionError, s\<lparr>queue_vector := q1\<rparr>)
                   else (None, s\<lparr>queue_vector := q1,
                                  queue_ptr := (ptr + batch_size) mod memory_k s\<rparr>)))"

text \<open>A run of enqueue calls, each with what the peers and the caller pass.\<close>

fun enqueue_all :: "(tensor list \<times> tensor list \<times> tensor) list \<Rightarrow> state \<Rightarrow> state" where
  "enqueue_all [] s = s"
| "enqueue_all ((before, after, features) # ops) s =
     enqueue_all ops (snd (dequeue_and_enqueue before after features s))"

section \<open>Relative transforms\<close>

text \<open>
  \<^verbatim>\<open>_get_trans_mat\<close>, lines 332-334: \<^verbatim>\<open>[bt @ at.inverse() for bt, at in zip(b, a)]\<close>. The
  pairs stop with the shorter list, and the first matrix whose inverse raises ends the
  call.
\<close>

fun get_trans_mat :: "kernels \<Rightarrow> mat3 list \<Rightarrow> mat3 list \<Rightarrow> error + mat3 list" where
  "get_trans_mat kn (a_t # a) (b_t # b) =
     (case inverse3 kn a_t of
        Inl e \<Rightarrow> Inl e
      | Inr ai \<Rightarrow>
          (case get_trans_mat kn a b of
             Inl e \<Rightarrow> Inl e
           | Inr ms \<Rightarrow> Inr (matmul kn b_t ai # ms)))"
| "get_trans_mat kn _ _ = Inr []"

section \<open>Batches and the collaborators of the detector\<close>

text \<open>Python's \<^verbatim>\<open>xs[i]\<close> and \<^verbatim>\<open>xs.index(x)\<close>: both raise where HOL's would be unspecified.\<close>

definition py_nth :: "'a list \<Rightarrow> nat \<Rightarrow> error + 'a" where
  "py_nth xs i = (if i < length xs then Inr (xs ! i) else Inl IndexError)"

fun py_index :: "'a list \<Rightarrow> 'a \<Rightarrow> error + nat" where
  "py_index [] x = Inl ValueError"
| "py_index (y # ys) x =
     (if y = x then Inr 0
      else case py_index ys x of Inl e \<Rightarrow> Inl e | Inr i \<Rightarrow> Inr (Suc i))"

text \<open>Running a fallible step over a list, left to right, stopping at the first error.\<close>

fun map_result :: "('a \<Rightarrow> error + 'b) \<Rightarrow> 'a list \<Rightarrow> error + 'b list" where
  "map_result f [] = Inr []"
| "map_result f (x # xs) =
     (case f x of
        Inl e \<Rightarrow> Inl e
      | Inr y \<Rightarrow> (case map_result f xs of Inl e \<Rightarrow> Inl e | Inr ys \<Rightarrow> Inr (y # ys)))"

text \<open>
  The metadata of an image: the file name joins the batches of the different roles,
  the transform matrix records the augmentation.
\<close>

record meta =
  filename :: string
  transform_matrix :: mat3
  img_shape :: "nat \<times> nat \<times> nat"

text \<open>
  A batch as the dictionaries of \<^verbatim>\<open>data_groups\<close> hold it. The image tensor is the list
  of its images; the lists of ground-truth boxes and labels are list objects, held by
  address.
\<close>

record 'img data =
  img :: "'img list"
  img_metas :: "meta list"
  gt_bboxes :: ref
  gt_labels :: ref
  proposals :: "tensor list option"

text \<open>What the box sampler returns for one image, as far as the losses read it.\<close>

record sampling_result =
  bboxes :: tensor
  pos_bboxes :: tensor
  pos_assigned_gt_inds :: "int list"
  pos_gt_labels :: "int list"

text \<open>
  One of the two detectors (student, teacher): the networks and heads the modelled code
  calls. What they compute is not modelled; they are arbitrary functions. The output of
  the RoI extractor is taken as already flattened to two dimensions
  (\<^verbatim>\<open>x.view(x.size(0), -1)\<close>).
\<close>

record ('img, 'feat, 'rpn, 'asg) detector =
  extract_feat :: "'img list \<Rightarrow> 'feat"
  with_rpn :: bool
  rpn_head :: "'feat \<Rightarrow> 'rpn"
  get_bboxes :: "'rpn \<Rightarrow> meta list \<Rightarrow> tensor list"
  assign :: "tensor \<Rightarrow> tensor \<Rightarrow> int list \<Rightarrow> 'asg"
  sample :: "'asg \<Rightarrow> tensor \<Rightarrow> tensor \<Rightarrow> int list \<Rightarrow> sampling_result"
  bbox_roi_extractor :: "'feat \<Rightarrow> tensor \<Rightarrow> tensor"
  projector :: "tensor \<Rightarrow> tensor"
  simple_test_bboxes :: "'feat \<Rightarrow> meta list \<Rightarrow> tensor list \<Rightarrow> tensor list \<times> int list list"

text \<open>A value of the configuration, as far as \<^verbatim>\<open>isinstance(_, float)\<close> tells values apart.\<close>

datatype py_value =
    PyFloat real
  | PyInt int
  | PyBool bool
  | PyStr string
  | PyNone
  | PyList "py_value list"

text \<open>An entry of the labelled dataset: an image with its boxes and labels.\<close>

record 'img item =
  item_img :: 'img
  item_gt_bboxes :: tensor
  item_gt_labels :: "int list"

text \<open>
  Everything else the modelled methods reach for:
  \<^item> \<open>student\<close>, \<open>teacher\<close>: the two detectors;
  \<^item> \<open>rand_src\<close>: the values torch's generator yields, by position;
  \<^item> \<open>peers\<close>: what the workers of lower and higher rank pass to the n-th collective
    call of this process;
  \<^item> \<open>get_same_label_item\<close>: what the labelled dataset returns for a label, by position
    in the sequence of random events;
  \<^item> \<open>filter_invalid\<close> (boxes, labels, scores, threshold, minimum size) and
    \<open>transform_bboxes\<close> (boxes, matrices, shapes): functions of \<^verbatim>\<open>ssod.models.utils\<close>, whose
    code is not part of the file under study;
  \<^item> the entries of \<^verbatim>\<open>train_cfg\<close> that are read.
\<close>

record ('img, 'feat, 'rpn, 'asg) env =
  student :: "('img, 'feat, 'rpn, 'asg) detector"
  teacher :: "('img, 'feat, 'rpn, 'asg) detector"
  rand_src :: "nat \<Rightarrow> nat"
  peers :: "nat \<Rightarrow> tensor list \<times> tensor list"
  get_same_label_item :: "nat \<Rightarrow> int \<Rightarrow> 'img item list"
  filter_invalid :: "tensor \<Rightarrow> int list \<Rightarrow> real list \<Rightarrow> real \<Rightarrow> real \<Rightarrow> tensor \<times> int list"
  transform_bboxes :: "tensor list \<Rightarrow> mat3 list \<Rightarrow> (nat \<times> nat \<times> nat) list \<Rightarrow> tensor list"
  pseudo_label_initial_score_thr :: py_value
  cls_pseudo_threshold :: real
  min_pseduo_box_size :: real
  torch :: kernels

text \<open>
  \<^verbatim>\<open>self._dequeue_and_enqueue(f)\<close> as the losses call it: the peers' arguments are those
  of the collective round the process is in, which is the number of calls made so far.
\<close>

definition enqueue_call ::
  "('img, 'feat, 'rpn, 'asg) env \<Rightarrow> tensor \<Rightarrow> state \<Rightarrow> error option \<times> state" where
  "enqueue_call env f s =
     dequeue_and_enqueue (fst (peers env (length (enqueue_log s))))
       (snd (peers env (length (enqueue_log s)))) f s"

text \<open>
  \<^verbatim>\<open>torch.randint(low=0, high=high, size=(n,))\<close>: \<open>n\<close> values below \<open>high\<close>, taken from the
  source in order. An empty range and a negative count raise.
\<close>

definition randint ::
  "(nat \<Rightarrow> nat) \<Rightarrow> nat \<Rightarrow> int \<Rightarrow> state \<Rightarrow> (error + nat list) \<times> state" where
  "randint src high n s =
     (if n < 0 \<or> high = 0 then (Inl RuntimeError, s)
      else (Inr (map (\<lambda>j. src (rand_pos s + j) mod high) [0..<nat n]),
            s\<lparr>rand_pos := rand_pos s + nat n\<rparr>))"

text \<open>Indexing the rows of a tensor, or a vector, by a list of valid positions.\<close>

definition index_rows :: "tensor \<Rightarrow> nat list \<Rightarrow> tensor" where
  "index_rows t idx = t\<lparr>rows := map ((!) (rows t)) idx\<rparr>"

definition index_list :: "'a list \<Rightarrow> nat list \<Rightarrow> 'a list" where
  "index_list xs idx = map ((!) xs) idx"

text \<open>Indexing by a boolean mask, which must be as long as the tensor has rows.\<close>

definition mask_rows :: "tensor \<Rightarrow> bool list \<Rightarrow> error + tensor" where
  "mask_rows t m =
     (if length m = size0 t
      then Inr (t\<lparr>rows := map fst (filter snd (zip (rows t) m))\<rparr>)
      else Inl IndexError)"

text \<open>
  \<^verbatim>\<open>bbox2roi\<close> of mmdet: the first four columns of every box, prefixed with the index of
  its image, all images concatenated; an image without boxes contributes a tensor of
  shape \<open>[0, 5]\<close>. Concatenating no tensor at all raises.
\<close>

definition bbox2roi :: "tensor list \<Rightarrow> error + tensor" where
  "bbox2roi bs =
     cat0 (map (\<lambda>(img_id, b).
                  if size0 b > 0
                  then \<lparr>size1 = 1 + min 4 (size1 b), rows = map (\<lambda>r. real img_id # take 4 r) (rows b)\<rparr>
                  else zeros 0 5)
             (zip [0..<length bs] bs))"

section \<open>The contrastive losses\<close>

text \<open>
  The \<open>(1 + K)\<close>-way logits and their cross-entropy against class 0, as
  \<^verbatim>\<open>torch.einsum\<close>, \<^verbatim>\<open>torch.cat\<close> and \<^verbatim>\<open>F.cross_entropy\<close> compute them over the reals.
  \<^verbatim>\<open>einsum\<close> lets a dimension of size 1 stand for any size; otherwise the shapes must
  agree.
\<close>

definition bdot :: "real list \<Rightarrow> real list \<Rightarrow> real" where
  "bdot u v =
     (if length u = length v then sum_list (map2 (*) u v)
      else if length u = 1 then hd u * sum_list v
      else hd v * sum_list u)"

definition cross_entropy0 :: "real list list \<Rightarrow> real" where
  "cross_entropy0 logits =
     sum_list (map (\<lambda>l. ln (sum_list (map exp l)) - hd l) logits) / real (length logits)"

definition broadcastable :: "nat \<Rightarrow> nat \<Rightarrow> bool" where
  "broadcastable m n \<longleftrightarrow> m = n \<or> m = 1 \<or> n = 1"

definition info_nce :: "real \<Rightarrow> tensor \<Rightarrow> tensor \<Rightarrow> tensor \<Rightarrow> error + real" where
  "info_nce T student_vec teacher_vec queue =
     (if broadcastable (size1 student_vec) (size1 queue)
         \<and> broadcastable (size1 student_vec) (size1 teacher_vec)
         \<and> (size0 teacher_vec = size0 student_vec \<or> size0 teacher_vec = 1)
      then Inr (cross_entropy0
             (map (\<lambda>j. map (\<lambda>x. x / T)
                     (bdot (rows student_vec ! j)
                        (rows teacher_vec ! (if size0 teacher_vec = size0 student_vec then j else 0))
                      # map (bdot (rows student_vec ! j)) (rows queue)))
                [0..<size0 student_vec]))
      else Inl RuntimeError)"

type_synonym losses = "string \<rightharpoonup> real"

subsection \<open>Sampling positives for both views\<close>

text \<open>
  \<^verbatim>\<open>get_sampling_result\<close>, lines 287-325, for the detector that \<^verbatim>\<open>mode\<close> selects: one
  assignment and one sample per entry of \<^verbatim>\<open>img_metas\<close>, the other lists read by index.
\<close>

definition get_sampling_result ::
  "('img, 'feat, 'rpn, 'asg) detector \<Rightarrow> meta list \<Rightarrow> tensor list \<Rightarrow> tensor list \<Rightarrow>
   int list list \<Rightarrow> error + sampling_result list" where
  "get_sampling_result det metas proposal_list gts labels =
     map_result
       (\<lambda>i. case py_nth proposal_list i of
               Inl e \<Rightarrow> Inl e
             | Inr p \<Rightarrow>
                 (case py_nth gts i of
                    Inl e \<Rightarrow> Inl e
                  | Inr g \<Rightarrow>
                      (case py_nth labels i of
                         Inl e \<Rightarrow> Inl e
                       | Inr l \<Rightarrow> Inr (sample det (assign det p g l) p g l))))
       [0..<length metas]"

text \<open>The dictionaries \<^verbatim>\<open>anchor_info\<close> and \<^verbatim>\<open>ctr_info\<close> that \<^verbatim>\<open>extract_ctr_info\<close> fills.\<close>

record ('img, 'feat, 'rpn) ctr_info =
  info_img :: "'img list"
  backbone_feature :: 'feat
  info_rpn_out :: "'rpn option"
  info_img_metas :: "meta list"
  info_proposals :: "tensor list"
  info_transform_matrix :: "mat3 list"
  sampling_results :: "sampling_result list"

text \<open>
  \<^verbatim>\<open>extract_ctr_info\<close>, lines 517-572. The variable \<^verbatim>\<open>rpn_out\<close> is bound only under
  \<^verbatim>\<open>with_rpn\<close> and read regardless; in the teacher's half it still holds the student's
  value when the teacher has no RPN.
\<close>

definition extract_ctr_info ::
  "('img, 'feat, 'rpn, 'asg) env \<Rightarrow> 'img data \<Rightarrow> 'img data \<Rightarrow> state \<Rightarrow>
   error + ('img, 'feat, 'rpn) ctr_info \<times> ('img, 'feat, 'rpn) ctr_info" where
  "extract_ctr_info env anchor_data ctr_data s =
     (let feat = extract_feat (student env) (img anchor_data);
          rpn_out = (if with_rpn (student env) then Some (rpn_head (student env) feat) else None)
      in case rpn_out of
           None \<Rightarrow> Inl UnboundLocalError
         | Some ro \<Rightarrow>
             let proposal_list = get_bboxes (student env) ro (img_metas anchor_data) in
             (case get_sampling_result (student env) (img_metas anchor_data) proposal_list
                     (box_lists s (gt_bboxes anchor_data)) (label_lists s (gt_labels anchor_data)) of
                Inl e \<Rightarrow> Inl e
              | Inr anchor_sampling \<Rightarrow>
                  let anchor_info =
                        \<lparr>info_img = img anchor_data, backbone_feature = feat,
                         info_rpn_out = rpn_out, info_img_metas = img_metas anchor_data,
                         info_proposals = proposal_list,
                         info_transform_matrix = map transform_matrix (img_metas anchor_data),
                         sampling_results = anchor_sampling\<rparr>;
                      feat_t = extract_feat (teacher env) (img ctr_data);
                      ro_t = (if with_rpn (teacher env) then rpn_head (teacher env) feat_t else ro);
                      proposal_list_t = get_bboxes (teacher env) ro_t (img_metas ctr_data)
                  in (case get_sampling_result (teacher env) (img_metas ctr_data) proposal_list_t
                            (box_lists s (gt_bboxes ctr_data)) (label_lists s (gt_labels ctr_data)) of
                        Inl e \<Rightarrow> Inl e
                      | Inr ctr_sampling \<Rightarrow>
                          Inr (anchor_info,
                               \<lparr>info_img = img ctr_data, backbone_feature = feat_t,
                                info_rpn_out = (if with_rpn (teacher env) then Some ro_t else None),
                                info_img_metas = img_metas ctr_data,
                                info_proposals = proposal_list_t,
                                info_transform_matrix = map transform_matrix (img_metas ctr_data),
                                sampling_results = ctr_sampling\<rparr>))))"

subsection \<open>The cross-view loss\<close>

text \<open>What the first loop of \<^verbatim>\<open>ctr_loss_1\<close> accumulates (lines 628-642).\<close>

record pos_acc =
  pos_gt_map_anchor :: "int list"
  pos_gt_map_ctr :: "int list"
  pos_labels_anchor :: "int list"
  pos_labels_ctr :: "int list"
  anchor_proposal :: "tensor list"
  ctr_proposal :: "tensor list"

definition aligned_nonempty :: "sampling_result \<Rightarrow> bool" where
  "aligned_nonempty res \<longleftrightarrow>
     length (pos_assigned_gt_inds res) = length (pos_gt_labels res)
     \<and> length (pos_gt_labels res) = size0 (pos_bboxes res)
     \<and> size0 (pos_bboxes res) \<noteq> 0"

fun ctr1_collect ::
  "int \<Rightarrow> nat \<Rightarrow> (sampling_result \<times> sampling_result) list \<Rightarrow> pos_acc \<Rightarrow> error + pos_acc" where
  "ctr1_collect batch i [] acc = Inr acc"
| "ctr1_collect batch i ((res_anchor, res_ctr) # rest) acc =
     (if \<not> aligned_nonempty res_anchor then Inl AssertionError
      else if \<not> aligned_nonempty res_ctr then Inl AssertionError
      else ctr1_collect batch (Suc i) rest
             (acc\<lparr>pos_gt_map_anchor := pos_gt_map_anchor acc
                      @ map (\<lambda>g. g + int i * batch) (pos_assigned_gt_inds res_anchor),
                   pos_gt_map_ctr := pos_gt_map_ctr acc
                      @ map (\<lambda>g. g + int i * batch) (pos_assigned_gt_inds res_ctr),
                   pos_labels_anchor := pos_labels_anchor acc @ pos_gt_labels res_anchor,
                   pos_labels_ctr := pos_labels_ctr acc @ pos_gt_labels res_ctr,
                   anchor_proposal := anchor_proposal acc @ [pos_bboxes res_anchor],
                   ctr_proposal := ctr_proposal acc @ [pos_bboxes res_ctr]\<rparr>))"

text \<open>
  Lines 650-652, for one anchor positive: one counterpart positive of the same
  ground-truth box, drawn at random; a box without counterpart positives leaves an
  empty range to draw from, which raises. Then the loop of lines 649-653, which
  concatenates what was picked.
\<close>

definition ctr1_pick ::
  "(nat \<Rightarrow> nat) \<Rightarrow> int list \<Rightarrow> tensor \<Rightarrow> int \<Rightarrow> state \<Rightarrow> (error + tensor) \<times> state" where
  "ctr1_pick src gt_map_ctr ctr_rois gt_map s =
     (case mask_rows ctr_rois (map (\<lambda>g. g = gt_map) gt_map_ctr) of
        Inl e \<Rightarrow> (Inl e, s)
      | Inr pos_proposal \<Rightarrow>
          (case randint src (size0 pos_proposal) 1 s of
             (Inl e, s') \<Rightarrow> (Inl e, s')
           | (Inr rand_index, s') \<Rightarrow> (Inr (index_rows pos_proposal rand_index), s')))"

fun ctr1_select ::
  "(nat \<Rightarrow> nat) \<Rightarrow> int list \<Rightarrow> tensor \<Rightarrow> int list \<Rightarrow> tensor \<Rightarrow> state \<Rightarrow>
   (error + tensor) \<times> state" where
  "ctr1_select src gt_map_ctr ctr_rois [] selected s = (Inr selected, s)"
| "ctr1_select src gt_map_ctr ctr_rois (gt_map # rest) selected s =
     (case ctr1_pick src gt_map_ctr ctr_rois gt_map s of
        (Inl e, s') \<Rightarrow> (Inl e, s')
      | (Inr picked, s') \<Rightarrow>
          (case cat0 [selected, picked] of
             Inl e \<Rightarrow> (Inl e, s')
           | Inr selected' \<Rightarrow> ctr1_select src gt_map_ctr ctr_rois rest selected' s'))"

text \<open>
  \<^verbatim>\<open>ctr_loss_1\<close>, lines 617-679, in three steps. First, lines 623-647: the positives
  of all images, as RoIs, with the assertions on their counts.
\<close>

definition ctr1_positives ::
  "('img, 'feat, 'rpn) ctr_info \<Rightarrow> ('img, 'feat, 'rpn) ctr_info \<Rightarrow>
   error + pos_acc \<times> tensor \<times> tensor" where
  "ctr1_positives anchor_info ctr_info =
     (let anchor_sample_res = sampling_results anchor_info;
          ctr_sample_res = sampling_results ctr_info
      in case py_nth anchor_sample_res 0 of
           Inl e \<Rightarrow> Inl e
         | Inr first \<Rightarrow>
             (case ctr1_collect (int (size0 (bboxes first))) 0 (zip anchor_sample_res ctr_sample_res)
                     \<lparr>pos_gt_map_anchor = [], pos_gt_map_ctr = [], pos_labels_anchor = [],
                      pos_labels_ctr = [], anchor_proposal = [], ctr_proposal = []\<rparr> of
                Inl e \<Rightarrow> Inl e
              | Inr acc \<Rightarrow>
                  (case bbox2roi (anchor_proposal acc) of
                     Inl e \<Rightarrow> Inl e
                   | Inr anchor_rois \<Rightarrow>
                       (case bbox2roi (ctr_proposal acc) of
                          Inl e \<Rightarrow> Inl e
                        | Inr ctr_rois \<Rightarrow>
                            if \<not> (length (pos_gt_map_anchor acc) = length (pos_labels_anchor acc)
                                   \<and> length (pos_labels_anchor acc) = size0 anchor_rois)
                            then Inl AssertionError
                            else if \<not> (length (pos_gt_map_ctr acc) = length (pos_labels_ctr acc)
                                   \<and> length (pos_labels_ctr acc) = size0 ctr_rois)
                            then Inl AssertionError
                            else Inr (acc, anchor_rois, ctr_rois)))))"

text \<open>
  Last, lines 655-679: the features of the anchor RoIs and of the selected counterpart
  RoIs, the loss, and the update of the queue. The result is the dictionary of losses
  or the exception raised, with the state left behind.
\<close>

definition ctr1_contrast ::
  "('img, 'feat, 'rpn, 'asg) env \<Rightarrow> ('img, 'feat, 'rpn) ctr_info \<Rightarrow> ('img, 'feat, 'rpn) ctr_info \<Rightarrow>
   tensor \<Rightarrow> tensor \<Rightarrow> state \<Rightarrow> (error + losses) \<times> state" where
  "ctr1_contrast env anchor_info ctr_info anchor_rois ctr_select_proposal s1 =
     (if \<not> (size0 anchor_rois = size0 ctr_select_proposal
            \<and> size1 anchor_rois = size1 ctr_select_proposal
            \<and> size1 ctr_select_proposal = 5)
      then (Inl AssertionError, s1)
      else
        let student_proposals =
              bbox_roi_extractor (student env) (backbone_feature anchor_info) anchor_rois;
            teacher_proposals =
              bbox_roi_extractor (teacher env) (backbone_feature ctr_info) ctr_select_proposal
        in
        if size0 student_proposals = 0 \<or> size0 teacher_proposals = 0
        then
          (case enqueue_call env (zeros 0 128) s1 of
             (Some e, s2) \<Rightarrow> (Inl e, s2)
           | (None, s2) \<Rightarrow> (Inr [''ctr1_loss'' \<mapsto> 0], s2))
        else
          let student_vec = normalize (torch env) (projector (student env) student_proposals);
              teacher_vec = normalize (torch env) (projector (teacher env) teacher_proposals)
          in
          (case info_nce (ctr1_T s1) student_vec teacher_vec (queue_vector s1) of
             Inl e \<Rightarrow> (Inl e, s1)
           | Inr loss \<Rightarrow>
               (case enqueue_call env teacher_vec s1 of
                  (Some e, s2) \<Rightarrow> (Inl e, s2)
                | (None, s2) \<Rightarrow> (Inr [''ctr1_loss'' \<mapsto> loss], s2))))"

text \<open>The three steps in order; the selection of lines 648-653 is the second.\<close>

definition ctr_loss_1 ::
  "('img, 'feat, 'rpn, 'asg) env \<Rightarrow> ('img, 'feat, 'rpn) ctr_info \<Rightarrow> ('img, 'feat, 'rpn) ctr_info \<Rightarrow>
   state \<Rightarrow> (error + losses) \<times> state" where
  "ctr_loss_1 env anchor_info ctr_info s =
     (case ctr1_positives anchor_info ctr_info of
        Inl e \<Rightarrow> (Inl e, s)
      | Inr (acc, anchor_rois, ctr_rois) \<Rightarrow>
          (case ctr1_select (rand_src env) (pos_gt_map_ctr acc) ctr_rois
                  (pos_gt_map_anchor acc) (zeros 0 5) s of
             (Inl e, s1) \<Rightarrow> (Inl e, s1)
           | (Inr ctr_select_proposal, s1) \<Rightarrow>
               ctr1_contrast env anchor_info ctr_info anchor_rois ctr_select_proposal s1))"

subsection \<open>The class-exemplar loss\<close>

text \<open>
  The loop of lines 687-692 over the images \<open>box_i\<close>: an image with more than
  \<^verbatim>\<open>ctr2_num\<close> boxes has its entry of the two lists replaced by the rows that
  \<^verbatim>\<open>ctr2_num\<close> random positions select. The lists are the caller's objects, at the
  addresses \<open>boxes_ref\<close> and \<open>labels_ref\<close>.
\<close>

fun ctr2_subsample ::
  "(nat \<Rightarrow> nat) \<Rightarrow> ref \<Rightarrow> ref \<Rightarrow> nat list \<Rightarrow> state \<Rightarrow> error option \<times> state" where
  "ctr2_subsample src boxes_ref labels_ref [] s = (None, s)"
| "ctr2_subsample src boxes_ref labels_ref (box_i # rest) s =
     (case py_nth (box_lists s boxes_ref) box_i of
        Inl e \<Rightarrow> (Some e, s)
      | Inr b \<Rightarrow>
          (case py_nth (label_lists s labels_ref) box_i of
             Inl e \<Rightarrow> (Some e, s)
           | Inr l \<Rightarrow>
               if \<not> (size0 b = length l \<and> length l \<noteq> 0) then (Some AssertionError, s)
               else if int (size0 b) > ctr2_num s then
                 (case randint src (size0 b) (ctr2_num s) s of
                    (Inl e, s') \<Rightarrow> (Some e, s')
                  | (Inr rand_index, s') \<Rightarrow>
                      ctr2_subsample src boxes_ref labels_ref rest
                        (s'\<lparr>box_lists := (box_lists s')
                               (boxes_ref := (box_lists s' boxes_ref)[box_i := index_rows b rand_index]),
                            label_lists := (label_lists s')
                               (labels_ref := (label_lists s' labels_ref)[box_i := index_list l rand_index])\<rparr>))
               else ctr2_subsample src boxes_ref labels_ref rest s))"

text \<open>
  Lines 705-714, for one label: an exemplar from the labelled dataset and its vector
  through the teacher. The retry at line 709 stores the dataset's answer, a list,
  where line 707 had stored the list's last element, so the loop test that follows
  indexes a list with a string and raises.
\<close>

definition ctr2_exemplar ::
  "('img, 'feat, 'rpn, 'asg) env \<Rightarrow> int \<Rightarrow> state \<Rightarrow> (error + tensor) \<times> state" where
  "ctr2_exemplar env label s =
     (let same_label_item = get_same_label_item env (rand_pos s) label;
          s1 = s\<lparr>rand_pos := rand_pos s + 1\<rparr>
      in if length same_label_item \<noteq> 3 then (Inl AssertionError, s1)
         else
           let it = last same_label_item in
           if label \<notin> set (item_gt_labels it)
           then (Inl TypeError, s1\<lparr>rand_pos := rand_pos s1 + 1\<rparr>)
           else
             let feat = extract_feat (teacher env) [item_img it] in
             (case mask_rows (item_gt_bboxes it) (map (\<lambda>l. l = label) (item_gt_labels it)) of
                Inl e \<Rightarrow> (Inl e, s1)
              | Inr same_boxes \<Rightarrow>
                  (case bbox2roi [same_boxes] of
                     Inl e \<Rightarrow> (Inl e, s1)
                   | Inr teacher_proposal_rois \<Rightarrow>
                       (case randint (rand_src env) (size0 teacher_proposal_rois) 1 s1 of
                          (Inl e, s2) \<Rightarrow> (Inl e, s2)
                        | (Inr rand_index, s2) \<Rightarrow>
                            let teacher_proposal =
                                  bbox_roi_extractor (teacher env) feat
                                    (index_rows teacher_proposal_rois rand_index)
                            in (Inr (projector (teacher env) teacher_proposal), s2)))))"

text \<open>The loop of lines 704-715 around it: the vectors are concatenated.\<close>

fun ctr2_exemplars ::
  "('img, 'feat, 'rpn, 'asg) env \<Rightarrow> int list \<Rightarrow> tensor \<Rightarrow> state \<Rightarrow> (error + tensor) \<times> state" where
  "ctr2_exemplars env [] teacher_vec s = (Inr teacher_vec, s)"
| "ctr2_exemplars env (label # rest) teacher_vec s =
     (case ctr2_exemplar env label s of
        (Inl e, s') \<Rightarrow> (Inl e, s')
      | (Inr vec, s') \<Rightarrow>
          (case cat0 [teacher_vec, vec] of
             Inl e \<Rightarrow> (Inl e, s')
           | Inr teacher_vec' \<Rightarrow> ctr2_exemplars env rest teacher_vec' s'))"

text \<open>\<^verbatim>\<open>ctr_loss_2\<close>, lines 683-727; \<open>boxes_ref\<close> and \<open>labels_ref\<close> are the addresses of the
  lists passed as \<^verbatim>\<open>bboxes\<close> and \<^verbatim>\<open>labels\<close>.\<close>

definition ctr_loss_2 ::
  "('img, 'feat, 'rpn, 'asg) env \<Rightarrow> ('img, 'feat, 'rpn) ctr_info \<Rightarrow> ref \<Rightarrow> ref \<Rightarrow> state \<Rightarrow>
   (error + losses) \<times> state" where
  "ctr_loss_2 env anchor_info boxes_ref labels_ref s =
     (if box_lists s boxes_ref = [] then (Inl IndexError, s)
      else if length (box_lists s boxes_ref) \<noteq> length (label_lists s labels_ref) then (Inl AssertionError, s)
      else
        (case ctr2_subsample (rand_src env) boxes_ref labels_ref [0..<length (box_lists s boxes_ref)] s of
           (Some e, s1) \<Rightarrow> (Inl e, s1)
         | (None, s1) \<Rightarrow>
             (case bbox2roi (box_lists s1 boxes_ref) of
                Inl e \<Rightarrow> (Inl e, s1)
              | Inr student_proposal_rois \<Rightarrow>
                  let student_proposals =
                        bbox_roi_extractor (student env) (backbone_feature anchor_info)
                          student_proposal_rois
                  in
                  if size0 student_proposals = 0 then (Inl AssertionError, s1)
                  else
                    let student_vec = normalize (torch env) (projector (student env) student_proposals);
                        all_labels = concat (label_lists s1 labels_ref)
                    in
                    if size0 student_proposal_rois \<noteq> length all_labels then (Inl AssertionError, s1)
                    else
                      (case ctr2_exemplars env all_labels (zeros 0 (projector_dim s1)) s1 of
                         (Inl e, s2) \<Rightarrow> (Inl e, s2)
                       | (Inr teacher_vec0, s2) \<Rightarrow>
                           let teacher_vec = normalize (torch env) teacher_vec0 in
                           if \<not> (size0 student_vec = size0 teacher_vec \<and> size0 teacher_vec \<noteq> 0
                                  \<and> size1 student_vec = size1 teacher_vec
                                  \<and> size1 teacher_vec = projector_dim s2)
                           then (Inl AssertionError, s2)
                           else
                             (case info_nce (ctr2_T s2) student_vec teacher_vec (queue_vector s2) of
                                Inl e \<Rightarrow> (Inl e, s2)
                              | Inr loss \<Rightarrow> (Inr [''ctr2_loss'' \<mapsto> loss], s2))))))"

subsection \<open>Both losses\<close>

text \<open>
  Lines 592-601 for image \<open>i\<close>: the four sizes must agree, and the image is kept when it
  has a ground-truth box.
\<close>

definition ctr_valid_entry ::
  "'img data \<Rightarrow> 'img data \<Rightarrow> state \<Rightarrow> nat \<Rightarrow>
   error + (nat \<times> (tensor \<times> int list \<times> meta) \<times> (tensor \<times> int list \<times> meta)) option" where
  "ctr_valid_entry anchor_data ctr_data s i =
     (let ab = box_lists s (gt_bboxes anchor_data) ! i;
          al = label_lists s (gt_labels anchor_data) ! i;
          cb = box_lists s (gt_bboxes ctr_data) ! i;
          cl = label_lists s (gt_labels ctr_data) ! i
      in if \<not> (size0 ab = length al \<and> length al = size0 cb \<and> size0 cb = length cl)
         then Inl AssertionError
         else if size0 ab \<noteq> 0 then
           (case py_nth (img_metas anchor_data) i of
              Inl e \<Rightarrow> Inl e
            | Inr am \<Rightarrow>
                (case py_nth (img_metas ctr_data) i of
                   Inl e \<Rightarrow> Inl e
                 | Inr cm \<Rightarrow> Inr (Some (i, (ab, al, am), (cb, cl, cm)))))
         else Inr None)"

text \<open>
  Lines 589-608: the batches of the images that have a ground-truth box. Their lists
  are new list objects.
\<close>

definition ctr_valid_batches ::
  "'img data \<Rightarrow> 'img data \<Rightarrow> state \<Rightarrow> error + 'img data \<times> 'img data \<times> state" where
  "ctr_valid_batches anchor_data ctr_data s =
     (case map_result (ctr_valid_entry anchor_data ctr_data s)
             [0..<length (box_lists s (gt_bboxes anchor_data))] of
        Inl e \<Rightarrow> Inl e
      | Inr entries \<Rightarrow>
          let valid = List.map_filter id entries;
              valid_ind = map fst valid;
              a_ref = next_ref s;
              c_ref = next_ref s + 1;
              s1 = s\<lparr>box_lists := (box_lists s)
                       (a_ref := map (\<lambda>(i, (ab, al, am), c). ab) valid,
                        c_ref := map (\<lambda>(i, a, (cb, cl, cm)). cb) valid),
                     label_lists := (label_lists s)
                       (a_ref := map (\<lambda>(i, (ab, al, am), c). al) valid,
                        c_ref := map (\<lambda>(i, a, (cb, cl, cm)). cl) valid),
                     next_ref := next_ref s + 2\<rparr>;
              valid_anchor_data =
                \<lparr>img = index_list (img anchor_data) valid_ind,
                 img_metas = map (\<lambda>(i, (ab, al, am), c). am) valid,
                 gt_bboxes = a_ref, gt_labels = a_ref, proposals = None\<rparr>;
              valid_ctr_data =
                \<lparr>img = index_list (img ctr_data) valid_ind,
                 img_metas = map (\<lambda>(i, a, (cb, cl, cm)). cm) valid,
                 gt_bboxes = c_ref, gt_labels = c_ref, proposals = None\<rparr>
          in
          if \<not> (length (box_lists s1 a_ref) = length (box_lists s1 c_ref)
                 \<and> length (box_lists s1 c_ref) = length (label_lists s1 a_ref)
                 \<and> length (label_lists s1 a_ref) = length (label_lists s1 c_ref)
                 \<and> length (label_lists s1 c_ref) = length (img valid_anchor_data)
                 \<and> length (img valid_anchor_data) = length (img valid_ctr_data))
          then Inl AssertionError
          else Inr (valid_anchor_data, valid_ctr_data, s1))"

text \<open>
  \<^verbatim>\<open>ctr_loss\<close>, lines 574-615. It is the addresses of the valid anchor batch's lists
  that \<^verbatim>\<open>ctr_loss_2\<close> receives.
\<close>

definition ctr_loss ::
  "('img, 'feat, 'rpn, 'asg) env \<Rightarrow> 'img data \<Rightarrow> 'img data \<Rightarrow> state \<Rightarrow>
   (error + losses) \<times> state" where
  "ctr_loss env anchor_data ctr_data s =
     (let n = length (box_lists s (gt_bboxes anchor_data)) in
      if \<not> (n = length (box_lists s (gt_bboxes ctr_data))
             \<and> n = length (label_lists s (gt_labels anchor_data))
             \<and> n = length (label_lists s (gt_labels ctr_data))
             \<and> n = length (img anchor_data)
             \<and> n = length (img ctr_data))
      then (Inl AssertionError, s)
      else
        let gt_num = sum_list (map size0 (box_lists s (gt_bboxes anchor_data))) in
        if gt_num = 0 then
          (case enqueue_call env (zeros 0 128) s of
             (Some e, s1) \<Rightarrow> (Inl e, s1)
           | (None, s1) \<Rightarrow> (Inr [''ctr1_loss'' \<mapsto> 0, ''ctr2_loss'' \<mapsto> 0], s1))
        else
          (case ctr_valid_batches anchor_data ctr_data s of
             Inl e \<Rightarrow> (Inl e, s)
           | Inr (valid_anchor_data, valid_ctr_data, s1) \<Rightarrow>
               (case extract_ctr_info env valid_anchor_data valid_ctr_data s1 of
                  Inl e \<Rightarrow> (Inl e, s1)
                | Inr (anchor_info, ctr_info) \<Rightarrow>
                    (case ctr_loss_1 env anchor_info ctr_info s1 of
                       (Inl e, s2) \<Rightarrow> (Inl e, s2)
                     | (Inr ctr1_loss, s2) \<Rightarrow>
                         (case ctr_loss_2 env anchor_info (gt_bboxes valid_anchor_data)
                                 (gt_labels valid_anchor_data) s2 of
                            (Inl e, s3) \<Rightarrow> (Inl e, s3)
                          | (Inr ctr2_loss, s3) \<Rightarrow> (Inr (ctr1_loss ++ ctr2_loss), s3))))))"

section \<open>Teacher inference and the alignment of batches\<close>

text \<open>The dictionary \<^verbatim>\<open>teacher_info\<close> that \<^verbatim>\<open>extract_teacher_info\<close> fills.\<close>

record ('img, 'feat) teacher_info =
  t_backbone_feature :: 'feat
  t_proposals :: "tensor list"
  det_bboxes :: "tensor list"
  det_labels :: "int list list"
  t_transform_matrix :: "mat3 list"
  t_img_metas :: "meta list"

text \<open>\<^verbatim>\<open>p[:, -1]\<close>, \<^verbatim>\<open>p[:, 4]\<close> and \<^verbatim>\<open>p[:, :4]\<close>; a column that does not exist raises.\<close>

definition last_column :: "tensor \<Rightarrow> error + real list" where
  "last_column p = (if size1 p = 0 then Inl IndexError else Inr (map last (rows p)))"

definition column4 :: "tensor \<Rightarrow> error + real list" where
  "column4 p = (if size1 p \<le> 4 then Inl IndexError else Inr (map (\<lambda>r. r ! 4) (rows p)))"

definition first4 :: "tensor \<Rightarrow> tensor" where
  "first4 p = \<lparr>size1 = min 4 (size1 p), rows = map (take 4) (rows p)\<rparr>"

text \<open>
  Lines 377-382: the initial score threshold must be a Python float; anything else
  raises.
\<close>

definition initial_score_thr :: "py_value \<Rightarrow> error + real" where
  "initial_score_thr v = (case v of PyFloat thr \<Rightarrow> Inr thr | _ \<Rightarrow> Inl NotImplementedError)"

text \<open>
  \<^verbatim>\<open>extract_teacher_info\<close>, lines 352-409. Unpacking the zipped results of
  \<^verbatim>\<open>filter_invalid\<close> into three names raises for a batch without images.
\<close>

definition extract_teacher_info ::
  "('img, 'feat, 'rpn, 'asg) env \<Rightarrow> 'img list \<Rightarrow> meta list \<Rightarrow> tensor list option \<Rightarrow>
   error + ('img, 'feat) teacher_info" where
  "extract_teacher_info env imgs metas props =
     (let feat = extract_feat (teacher env) imgs;
          proposal_list0 =
            (case props of
               None \<Rightarrow> get_bboxes (teacher env) (rpn_head (teacher env) feat) metas
             | Some ps \<Rightarrow> ps);
          (dets, det_label_list) = simple_test_bboxes (teacher env) feat metas proposal_list0;
          proposal_list = map (\<lambda>p. if size0 p > 0 then p else zeros 0 5) dets
      in case initial_score_thr (pseudo_label_initial_score_thr env) of
           Inl e \<Rightarrow> Inl e
         | Inr thr \<Rightarrow>
             (case map_result
                     (\<lambda>(proposal, proposal_label).
                        case last_column proposal of
                          Inl e \<Rightarrow> Inl e
                        | Inr score \<Rightarrow>
                            Inr (filter_invalid env proposal proposal_label score thr
                                   (min_pseduo_box_size env)))
                     (zip proposal_list det_label_list) of
                Inl e \<Rightarrow> Inl e
              | Inr filtered \<Rightarrow>
                  if filtered = [] then Inl ValueError
                  else Inr \<lparr>t_backbone_feature = feat, t_proposals = proposal_list0,
                            det_bboxes = map fst filtered, det_labels = map snd filtered,
                            t_transform_matrix = map transform_matrix metas,
                            t_img_metas = metas\<rparr>))"

text \<open>
  Lines 85-98 of \<^verbatim>\<open>foward_unsup_train\<close> and, with other names, lines 112-125 of
  \<^verbatim>\<open>foward_unsup_ctr_train\<close>: the position of every student file name among the
  teacher's (\<^verbatim>\<open>tidx\<close>), and the teacher's images, metadata and proposals read at those
  positions.
\<close>

definition aligned_teacher_inputs ::
  "'img data \<Rightarrow> 'img data \<Rightarrow> error + nat list \<times> 'img list \<times> meta list \<times> tensor list option" where
  "aligned_teacher_inputs teacher_data student_data =
     (let tnames = map filename (img_metas teacher_data);
          snames = map filename (img_metas student_data)
      in case map_result (py_index tnames) snames of
           Inl e \<Rightarrow> Inl e
         | Inr tidx \<Rightarrow>
             (case map_result (py_nth (img teacher_data)) tidx of
                Inl e \<Rightarrow> Inl e
              | Inr imgs \<Rightarrow>
                  (case map_result (py_nth (img_metas teacher_data)) tidx of
                     Inl e \<Rightarrow> Inl e
                   | Inr metas \<Rightarrow>
                       (case proposals teacher_data of
                          None \<Rightarrow> Inr (tidx, imgs, metas, None)
                        | Some ps \<Rightarrow>
                            (case map_result (py_nth ps) tidx of
                               Inl e \<Rightarrow> Inl e
                             | Inr ps' \<Rightarrow> Inr (tidx, imgs, metas, Some ps'))))))"

text \<open>Lines 85-98: the teacher's detections for \<^verbatim>\<open>foward_unsup_train\<close>, in the student's order.\<close>

definition unsup_teacher_info ::
  "('img, 'feat, 'rpn, 'asg) env \<Rightarrow> 'img data \<Rightarrow> 'img data \<Rightarrow> error + ('img, 'feat) teacher_info" where
  "unsup_teacher_info env teacher_data student_data =
     (case aligned_teacher_inputs teacher_data student_data of
        Inl e \<Rightarrow> Inl e
      | Inr (tidx, imgs, metas, props) \<Rightarrow> extract_teacher_info env imgs metas props)"

text \<open>
  Lines 112-156 of \<^verbatim>\<open>foward_unsup_ctr_train\<close>: the two batches as they are handed to
  \<^verbatim>\<open>ctr_loss\<close>. The pseudo boxes and labels are new lists, computed from the counterpart
  images in the anchor's order; the counterpart batch keeps its own images and
  metadata.
\<close>

definition unsup_ctr_batches ::
  "('img, 'feat, 'rpn, 'asg) env \<Rightarrow> 'img data \<Rightarrow> 'img data \<Rightarrow> state \<Rightarrow>
   error + 'img data \<times> 'img data \<times> state" where
  "unsup_ctr_batches env anchor_data ctr_data s =
     (case aligned_teacher_inputs ctr_data anchor_data of
        Inl e \<Rightarrow> Inl e
      | Inr (tidx, imgs, metas, props) \<Rightarrow>
          (case extract_teacher_info env imgs metas props of
             Inl e \<Rightarrow> Inl e
           | Inr ctr_info \<Rightarrow>
               (case map_result
                       (\<lambda>(bbox, label).
                          case column4 bbox of
                            Inl e \<Rightarrow> Inl e
                          | Inr score \<Rightarrow>
                              Inr (filter_invalid env (first4 bbox) label score
                                     (cls_pseudo_threshold env) (min_pseduo_box_size env)))
                       (zip (det_bboxes ctr_info) (det_labels ctr_info)) of
                  Inl e \<Rightarrow> Inl e
                | Inr filtered \<Rightarrow>
                    if filtered = [] then Inl ValueError
                    else
                      let ctr_bboxes = map fst filtered;
                          ctr_labels = map snd filtered;
                          stumatrix = map transform_matrix (img_metas anchor_data)
                      in (case get_trans_mat (torch env) (t_transform_matrix ctr_info) stumatrix of
                            Inl e \<Rightarrow> Inl e
                          | Inr M \<Rightarrow>
                              let anchor_bboxes =
                                    transform_bboxes env ctr_bboxes M
                                      (map img_shape (img_metas anchor_data));
                                  anchor_labels = ctr_labels;
                                  a_ref = next_ref s;
                                  c_ref = next_ref s + 1;
                                  s' = s\<lparr>box_lists := (box_lists s)
                                           (a_ref := anchor_bboxes, c_ref := ctr_bboxes),
                                         label_lists := (label_lists s)
                                           (a_ref := anchor_labels, c_ref := ctr_labels),
                                         next_ref := next_ref s + 2\<rparr>
                              in Inr (anchor_data\<lparr>gt_bboxes := a_ref, gt_labels := a_ref\<rparr>,
                                      ctr_data\<lparr>gt_bboxes := c_ref, gt_labels := c_ref\<rparr>,
                                      s')))))"

text \<open>\<^verbatim>\<open>foward_unsup_ctr_train\<close>, lines 111-158.\<close>

definition foward_unsup_ctr_train ::
  "('img, 'feat, 'rpn, 'asg) env \<Rightarrow> 'img data \<Rightarrow> 'img data \<Rightarrow> state \<Rightarrow>
   (error + losses) \<times> state" where
  "foward_unsup_ctr_train env anchor_data ctr_data s =
     (case unsup_ctr_batches env anchor_data ctr_data s of
        Inl e \<Rightarrow> (Inl e, s)
      | Inr (anchor_data', ctr_data', s') \<Rightarrow> ctr_loss env anchor_data' ctr_data' s')"

section \<open>Notions used to state the properties\<close>

subsection \<open>Padding, circular writes and the queue invariant\<close>

text \<open>A worker's tensor with zero rows appended up to \<open>m\<close> rows.\<close>

definition padded_to :: "nat \<Rightarrow> tensor \<Rightarrow> tensor" where
  "padded_to m t = \<lparr>size1 = size1 t, rows = rows t @ replicate (m - size0 t) (replicate (size1 t) 0)\<rparr>"

text \<open>
  A circular buffer \<open>q\<close> after writing \<open>f\<close> at position \<open>ptr\<close>, for a batch no longer than the
  buffer: the part of \<open>f\<close> that does not fit before the end continues at position 0.
\<close>

definition circular_write :: "'a list \<Rightarrow> nat \<Rightarrow> 'a list \<Rightarrow> 'a list" where
  "circular_write q ptr f =
     (if length q \<le> ptr + length f
      then drop (length q - ptr) f @ drop (ptr + length f - length q) (take ptr q) @ take (length q - ptr) f
      else take ptr q @ f @ drop (ptr + length f) q)"

text \<open>What the queue keeps true: its shape, its normalised rows and the range of its cursor.\<close>

definition queue_inv :: "real \<Rightarrow> state \<Rightarrow> bool" where
  "queue_inv tol s \<longleftrightarrow>
     size0 (queue_vector s) = memory_k s \<and> size1 (queue_vector s) = projector_dim s \<and>
     unit_rows tol (queue_vector s) \<and> queue_ptr s < memory_k s"

subsection \<open>Exact matrix arithmetic\<close>

text \<open>
  The product and the inverse of 3 by 3 matrices over the real numbers, without
  rounding: what the kernels \<open>matmul\<close> and \<open>inverse3\<close> approximate. The inverse is the
  adjugate over the determinant.
\<close>

fun exact_matmul :: "mat3 \<Rightarrow> mat3 \<Rightarrow> mat3" where
  "exact_matmul (Mat3 a b c d e f g h i) (Mat3 a' b' c' d' e' f' g' h' i') =
     Mat3 (a * a' + b * d' + c * g') (a * b' + b * e' + c * h') (a * c' + b * f' + c * i')
          (d * a' + e * d' + f * g') (d * b' + e * e' + f * h') (d * c' + e * f' + f * i')
          (g * a' + h * d' + i * g') (g * b' + h * e' + i * h') (g * c' + h * f' + i * i')"

fun det3 :: "mat3 \<Rightarrow> real" where
  "det3 (Mat3 a b c d e f g h i) =
     a * (e * i - f * h) - b * (d * i - f * g) + c * (d * h - e * g)"

fun adjugate3 :: "mat3 \<Rightarrow> mat3" where
  "adjugate3 (Mat3 a b c d e f g h i) =
     Mat3 (e * i - f * h) (c * h - b * i) (b * f - c * e)
          (f * g - d * i) (a * i - c * g) (c * d - a * f)
          (d * h - e * g) (b * g - a * h) (a * e - b * d)"

fun scale3 :: "real \<Rightarrow> mat3 \<Rightarrow> mat3" where
  "scale3 k (Mat3 a b c d e f g h i) =
     Mat3 (k * a) (k * b) (k * c) (k * d) (k * e) (k * f) (k * g) (k * h) (k * i)"

definition exact_inverse3 :: "mat3 \<Rightarrow> mat3 option" where
  "exact_inverse3 m = (if det3 m = 0 then None else Some (scale3 (1 / det3 m) (adjugate3 m)))"

text \<open>
  The kernels commit no rounding error on the relative transforms between \<open>a\<close> and \<open>b\<close>:
  both matrices are invertible, the kernels return their exact inverses, the exact
  products \<open>b @ inverse a\<close> and \<open>a @ inverse b\<close>, and the exact product of these two.
\<close>

definition rounding_free :: "kernels \<Rightarrow> mat3 \<Rightarrow> mat3 \<Rightarrow> bool" where
  "rounding_free kn a b \<longleftrightarrow>
     (case (exact_inverse3 a, exact_inverse3 b) of
        (Some ai, Some bi) \<Rightarrow>
          inverse3 kn a = Inr ai \<and> inverse3 kn b = Inr bi
          \<and> matmul kn b ai = exact_matmul b ai \<and> matmul kn a bi = exact_matmul a bi
          \<and> matmul kn (exact_matmul b ai) (exact_matmul a bi)
              = exact_matmul (exact_matmul b ai) (exact_matmul a bi)
      | _ \<Rightarrow> False)"

subsection \<open>Subsampling\<close>

text \<open>
  How an image's boxes \<open>b\<close> and labels \<open>l\<close> relate to what the subsampling loop leaves
  (\<open>b'\<close>, \<open>l'\<close>) for the bound \<open>n2\<close>: above the bound, both are read at the same \<open>n2\<close>
  positions; otherwise they are kept.
\<close>

definition subsampled :: "int \<Rightarrow> tensor \<Rightarrow> int list \<Rightarrow> tensor \<Rightarrow> int list \<Rightarrow> bool" where
  "subsampled n2 b l b' l' \<longleftrightarrow>
     (if int (size0 b) > n2
      then \<exists>idx. int (length idx) = n2 \<and> (\<forall>j \<in> set idx. j < size0 b)
             \<and> b' = index_rows b idx \<and> l' = index_list l idx
      else b' = b \<and> l' = l)"

text \<open>
  The positions \<^verbatim>\<open>torch.randint\<close> returns for \<open>n\<close> draws below \<open>high\<close> when \<open>p\<close> values
  of the source have been used; the positions drawn for image \<open>i\<close> by the subsampling
  loop started in state \<open>s\<close>, which has drawn \<^verbatim>\<open>ctr2_num\<close> values for every earlier image with
  more than \<^verbatim>\<open>ctr2_num\<close> boxes; and an image's boxes and labels read at the positions drawn
  from \<open>p\<close> on.
\<close>

definition draws :: "(nat \<Rightarrow> nat) \<Rightarrow> nat \<Rightarrow> nat \<Rightarrow> int \<Rightarrow> nat list" where
  "draws src p high n = map (\<lambda>j. src (p + j) mod high) [0..<nat n]"

definition drawn_positions :: "(nat \<Rightarrow> nat) \<Rightarrow> state \<Rightarrow> ref \<Rightarrow> nat \<Rightarrow> nat list" where
  "drawn_positions src s boxes_ref i =
     draws src
       (rand_pos s + nat (ctr2_num s) *
          length (filter (\<lambda>j. ctr2_num s < int (size0 (box_lists s boxes_ref ! j))) [0..<i]))
       (size0 (box_lists s boxes_ref ! i)) (ctr2_num s)"

definition drawn_at ::
  "(nat \<Rightarrow> nat) \<Rightarrow> nat \<Rightarrow> int \<Rightarrow> tensor \<Rightarrow> int list \<Rightarrow> tensor \<Rightarrow> int list \<Rightarrow> bool" where
  "drawn_at src p n2 b l b' l' \<longleftrightarrow>
     (if int (size0 b) > n2
      then b' = index_rows b (draws src p (size0 b) n2) \<and> l' = index_list l (draws src p (size0 b) n2)
      else b' = b \<and> l' = l)"

subsection \<open>Calls of the queue update\<close>





subsection \<open>Example inputs\<close>

text \<open>
  Kernels for the examples, in float32 arithmetic with round to nearest, ties to even,
  of 24 significant bits (values beyond the largest float32 do not occur in the
  examples and are not treated): a matrix product that rounds every product and every
  sum, from left to right; the inverse of a diagonal matrix, which is one rounded
  division per diagonal entry whatever the algorithm (other matrices are not
  covered by the example kernel); and a normalisation that adds the rounded squares
  from left to right.
\<close>

definition round_even :: "real \<Rightarrow> int" where
  "round_even x =
     (let n = \<lfloor>x\<rfloor>; f = x - of_int n
      in if f < 1 / 2 \<or> (f = 1 / 2 \<and> even n) then n else n + 1)"

definition fl32 :: "real \<Rightarrow> real" where
  "fl32 x =
     (if x = 0 then 0
      else let e = max \<lfloor>log 2 \<bar>x\<bar>\<rfloor> (- 126) - 23
           in of_int (round_even (x / 2 powr of_int e)) * 2 powr of_int e)"

definition dot3 :: "real \<Rightarrow> real \<Rightarrow> real \<Rightarrow> real \<Rightarrow> real \<Rightarrow> real \<Rightarrow> real" where
  "dot3 a b c a' b' c' = fl32 (fl32 (fl32 (a * a') + fl32 (b * b')) + fl32 (c * c'))"

fun float32_matmul :: "mat3 \<Rightarrow> mat3 \<Rightarrow> mat3" where
  "float32_matmul (Mat3 a b c d e f g h i) (Mat3 a' b' c' d' e' f' g' h' i') =
     Mat3 (dot3 a b c a' d' g') (dot3 a b c b' e' h') (dot3 a b c c' f' i')
          (dot3 d e f a' d' g') (dot3 d e f b' e' h') (dot3 d e f c' f' i')
          (dot3 g h i a' d' g') (dot3 g h i b' e' h') (dot3 g h i c' f' i')"

fun float32_diag_inverse :: "mat3 \<Rightarrow> error + mat3" where
  "float32_diag_inverse (Mat3 a b c d e f g h i) =
     (if b = 0 \<and> c = 0 \<and> d = 0 \<and> f = 0 \<and> g = 0 \<and> h = 0
      then if a = 0 \<or> e = 0 \<or> i = 0 then Inl RuntimeError
           else Inr (Mat3 (fl32 (1 / a)) 0 0  0 (fl32 (1 / e)) 0  0 0 (fl32 (1 / i)))
      else Inl NotImplementedError)"

definition float32_normalize_row :: "real list \<Rightarrow> real list" where
  "float32_normalize_row r =
     (let norm = fl32 (sqrt (foldl (\<lambda>acc x. fl32 (acc + fl32 (x * x))) 0 r))
      in map (\<lambda>x. fl32 (x / max norm (fl32 (1 / 10 ^ 12)))) r)"

definition float32_kernels :: kernels where
  "float32_kernels =
     \<lparr>normalize_row = float32_normalize_row, matmul = float32_matmul,
      inverse3 = float32_diag_inverse\<rparr>"

text \<open>A queue of one-column rows with its cursor, its capacity being the number of rows.\<close>

definition small_queue :: "real list list \<Rightarrow> nat \<Rightarrow> state" where
  "small_queue q p =
     \<lparr>memory_k = length q, projector_dim = 1, ctr1_T = 1 / 5, ctr2_T = 1 / 5, ctr2_num = 2,
      queue_vector = \<lparr>size1 = 1, rows = q\<rparr>, queue_ptr = p, rand_pos = 0, enqueue_log = [],
      box_lists = (\<lambda>_. []), label_lists = (\<lambda>_. []), next_ref = 0\<rparr>"

text \<open>A one-column tensor.\<close>

definition column :: "real list \<Rightarrow> tensor" where
  "column xs = \<lparr>size1 = 1, rows = map (\<lambda>x. [x]) xs\<rparr>"

text \<open>
  A source of draws whose first four values fill a 2 by 2 matrix with rows \<open>[3, 4]\<close> and
  \<open>[0, 1]\<close>, and a source that always draws 1.
\<close>

definition example_draws :: "nat \<Rightarrow> real" where
  "example_draws n = (if n = 0 then 3 else if n = 1 then 4 else if n = 3 then 1 else 0)"

definition unit_draws :: "nat \<Rightarrow> real" where
  "unit_draws n = 1"

text \<open>
  A detector for examples. Images are numbers; the features of a batch are its images;
  the proposal of image \<open>k\<close> is one box with score \<open>k / 10\<close>; the head detects
  every proposal, with label 0; the sampler's positives are the ground-truth boxes;
  the RoI extractor returns the RoIs and the projector maps every row to \<open>[1, 0]\<close>.
\<close>

definition toy_detector :: "(nat, nat list, nat list, unit) detector" where
  "toy_detector =
     \<lparr>extract_feat = (\<lambda>imgs. imgs),
      with_rpn = True,
      rpn_head = (\<lambda>feat. feat),
      get_bboxes = (\<lambda>ro metas. map (\<lambda>k. \<lparr>size1 = 5, rows = [[0, 0, 8, 8, real k / 10]]\<rparr>) ro),
      assign = (\<lambda>p g l. ()),
      sample = (\<lambda>a p g l. \<lparr>bboxes = p, pos_bboxes = g,
                              pos_assigned_gt_inds = map int [0..<size0 g], pos_gt_labels = l\<rparr>),
      bbox_roi_extractor = (\<lambda>feat rois. rois),
      projector = (\<lambda>x. \<lparr>size1 = 2, rows = map (\<lambda>r. [1, 0]) (rows x)\<rparr>),
      simple_test_bboxes = (\<lambda>feat metas props. (props, map (\<lambda>p. replicate (size0 p) 0) props))\<rparr>"

text \<open>A filter that keeps the boxes whose score reaches the threshold.\<close>

definition keep_scored :: "tensor \<Rightarrow> int list \<Rightarrow> real list \<Rightarrow> real \<Rightarrow> real \<Rightarrow> tensor \<times> int list" where
  "keep_scored b l sc thr min_size =
     (b\<lparr>rows := map fst (filter (\<lambda>(r, x). thr \<le> x) (zip (rows b) sc))\<rparr>,
      map fst (filter (\<lambda>(y, x). thr \<le> x) (zip l sc)))"

definition toy_env :: "py_value \<Rightarrow> (nat, nat list, nat list, unit) env" where
  "toy_env thr =
     \<lparr>student = toy_detector, teacher = toy_detector,
      rand_src = (\<lambda>n. n),
      peers = (\<lambda>n. ([], [])),
      get_same_label_item = (\<lambda>n label.
         replicate 3 \<lparr>item_img = 0, item_gt_bboxes = \<lparr>size1 = 4, rows = [[0, 0, 4, 4]]\<rparr>,
                      item_gt_labels = [label]\<rparr>),
      filter_invalid = keep_scored,
      transform_bboxes = (\<lambda>bs M shapes. bs),
      pseudo_label_initial_score_thr = thr,
      cls_pseudo_threshold = 0,
      min_pseduo_box_size = 0,
      torch = float32_kernels\<rparr>"

definition toy_meta :: "string \<Rightarrow> meta" where
  "toy_meta name = \<lparr>filename = name, transform_matrix = identity3, img_shape = (8, 8, 3)\<rparr>"

text \<open>Boxes of side 4, one per given corner, and a state whose list object 0 holds given boxes and labels.\<close>

definition toy_boxes :: "real list \<Rightarrow> tensor" where
  "toy_boxes ks = \<lparr>size1 = 4, rows = map (\<lambda>k. [k, k, k + 4, k + 4]) ks\<rparr>"

definition toy_state :: "tensor list \<Rightarrow> int list list \<Rightarrow> state" where
  "toy_state bs ls =
     \<lparr>memory_k = 4, projector_dim = 2, ctr1_T = 1 / 5, ctr2_T = 1 / 5, ctr2_num = 2,
      queue_vector = \<lparr>size1 = 2, rows = [[1, 0], [0, 1], [1, 0], [0, 1]]\<rparr>,
      queue_ptr = 0, rand_pos = 0, enqueue_log = [],
      box_lists = (\<lambda>r. if r = 0 then bs else []),
      label_lists = (\<lambda>r. if r = 0 then ls else []),
      next_ref = 1\<rparr>"






section \<open>Properties\<close>

subsection \<open>Gathering\<close>

lemma fl1: "floorlog 2 1 = 1" by (simp add: floorlog_def)

lemma fl25: "floorlog 2 (2 ^ 24) = 25"
  using floorlog_power [of 1 2 24] fl1 by simp

lemma float32_exact: "n \<le> 2 ^ 24 \<Longrightarrow> float32_of_nat n = n"
proof (cases "n = 2 ^ 24")
  case True
  have "float32_of_nat (2 ^ 24) = 2 ^ 24"
    unfolding float32_of_nat_def fl25 by (simp add: Let_def)
  then show ?thesis using True by simp
next
  case False
  assume "n \<le> 2 ^ 24"
  with False have "n < 2 ^ 24" by simp
  then have "floorlog 2 n \<le> 24" by (simp add: floorlog_le_iff)
  then have e: "floorlog 2 n - 24 = 0" by simp
  show ?thesis unfolding float32_of_nat_def e by (simp add: Let_def)
qed

lemma pad_rows_ok:
  "size0 t \<le> m \<Longrightarrow> pad_rows m t = Inr (padded_to m t)"
  by (simp add: pad_rows_def cat0_def zeros_def padded_to_def)

lemma those_padded_Inr: "those_padded (map Inr ts) = Some ts"
  by (induction ts) simp_all

lemma those_padded_map:
  "\<forall>t \<in> set ts. f t = Inr (g t) \<Longrightarrow> those_padded (map f ts) = Some (map g ts)"
  by (induction ts) simp_all

lemma take_rows_padded: "take_rows (size0 t) (padded_to m t) = t"
  by (simp add: take_rows_def padded_to_def size0_def)

lemma truncate_all:
  "map (\<lambda>(bs, f). take_rows bs f) (zip (map size0 ts) (map (padded_to m) ts)) = ts"
  by (induction ts) (simp_all add: take_rows_padded)

lemma cat0_same_width:
  "ts \<noteq> [] \<Longrightarrow> \<forall>t \<in> set ts. size1 t = d \<Longrightarrow>
   cat0 ts = Inr \<lparr>size1 = d, rows = concat (map rows ts)\<rparr>"
  by (cases ts) (auto simp: cat0_def list_all_iff)

lemma widths_padded:
  "list_all (\<lambda>f. size1 f = size1 (padded_to m x)) (map (padded_to m) ts)
     = list_all (\<lambda>t. size1 t = size1 x) ts"
  by (induction ts) (simp_all add: padded_to_def)

lemma concat_all_gather_unfold:
  assumes w: "\<forall>t \<in> set (before @ [features] @ after). size0 t \<le> 2 ^ 24"
  shows "concat_all_gather before after features =
     (if list_all (\<lambda>t. size1 t = size1 features) (before @ [features] @ after)
      then cat0 (before @ [features] @ after) else Inl CollectiveError)"
proof -
  let ?world = "before @ [features] @ after"
  let ?m = "Max (set (map size0 ?world))"
  have sizes: "map (\<lambda>t. float32_of_nat (size0 t)) ?world = map size0 ?world"
    using w by (auto intro: float32_exact)
  have le: "size0 t \<le> ?m" if "t \<in> set ?world" for t
    using that by (intro Max_ge) auto
  have pads: "\<forall>t \<in> set ?world. pad_rows ?m t = Inr (padded_to ?m t)"
    using le by (auto intro!: pad_rows_ok)
  have loc: "pad_rows ?m features = Inr (padded_to ?m features)"
    using pads by simp
  have gathered: "those_padded (map (pad_rows ?m) ?world) = Some (map (padded_to ?m) ?world)"
    using pads by (rule those_padded_map)
  note widths = widths_padded [of ?m features ?world]
  show ?thesis
    unfolding concat_all_gather_def Let_def sizes
    by (simp only: loc gathered widths truncate_all sum.case option.case)
qed

lemma concat_all_gather_exact:
  assumes w: "\<forall>t \<in> set (before @ [features] @ after). size1 t = d \<and> size0 t \<le> 2 ^ 24"
  shows "concat_all_gather before after features =
           Inr \<lparr>size1 = d, rows = concat (map rows (before @ [features] @ after))\<rparr>"
proof -
  let ?world = "before @ [features] @ after"
  have sz: "\<forall>t \<in> set ?world. size0 t \<le> 2 ^ 24" using w by blast
  have wd: "list_all (\<lambda>t. size1 t = size1 features) ?world"
    using w by (simp add: list_all_iff)
  have "concat_all_gather before after features = cat0 ?world"
    unfolding concat_all_gather_unfold [OF sz] using wd by simp
  also have "\<dots> = Inr \<lparr>size1 = d, rows = concat (map rows ?world)\<rparr>"
    using w by (intro cat0_same_width) auto
  finally show ?thesis .
qed

lemma concat_all_gather_rows:
  assumes w: "\<forall>t \<in> set (before @ [features] @ after). size0 t \<le> 2 ^ 24"
    and g: "concat_all_gather before after features = Inr m"
  shows "rows m = concat (map rows (before @ [features] @ after))"
proof -
  let ?world = "before @ [features] @ after"
  have eq: "\<forall>t \<in> set ?world. size1 t = size1 features"
    using g unfolding concat_all_gather_unfold [OF w]
    by (auto simp: list_all_iff split: if_splits)
  have "cat0 ?world = Inr \<lparr>size1 = size1 features, rows = concat (map rows ?world)\<rparr>"
    using eq by (intro cat0_same_width) auto
  moreover have "concat_all_gather before after features = cat0 ?world"
    unfolding concat_all_gather_unfold [OF w] using eq by (simp add: list_all_iff)
  ultimately show ?thesis using g by simp
qed

text \<open>Beyond \<open>2 ^ 24\<close> a size is rounded to an even number, up or down.\<close>

lemma floorlog_25: "2 ^ 24 \<le> n \<Longrightarrow> n < 2 ^ 25 \<Longrightarrow> floorlog 2 n = 25"
proof -
  assume a: "2 ^ 24 \<le> n" "n < 2 ^ 25"
  have "floorlog 2 n \<le> 25" using a(2) by (simp add: floorlog_le_iff)
  moreover have "25 \<le> floorlog 2 n" using a(1) by (intro floorlog_geI) simp_all
  ultimately show ?thesis by simp
qed

lemma float32_above:
  assumes "2 ^ 24 \<le> n" "n < 2 ^ 25"
  shows "float32_of_nat n = (if odd n \<and> odd (n div 2) then n div 2 + 1 else n div 2) * 2"
proof -
  have r: "2 * (n mod 2) = 2 \<longleftrightarrow> odd n" "\<not> 2 < 2 * (n mod 2)"
    by (auto simp: odd_iff_mod_2_eq_one)
  show ?thesis
    unfolding float32_of_nat_def floorlog_25 [OF assms] Let_def
    using r by simp
qed

lemma gather_padded_row:
  assumes "float32_of_nat (size0 t) = Suc (size0 t)"
  shows "concat_all_gather [] [] t = Inr \<lparr>size1 = size1 t, rows = rows t @ [replicate (size1 t) 0]\<rparr>"
proof -
  let ?p = "\<lparr>size1 = size1 t, rows = rows t @ [replicate (size1 t) 0]\<rparr>"
  have m: "Max (set (map (\<lambda>t. float32_of_nat (size0 t)) ([] @ [t] @ []))) = Suc (size0 t)"
    using assms by simp
  have p: "pad_rows (Suc (size0 t)) t = Inr ?p"
    by (simp add: pad_rows_def cat0_def zeros_def)
  have k: "take_rows (Suc (size0 t)) ?p = ?p"
    by (simp add: take_rows_def size0_def)
  show ?thesis
    unfolding concat_all_gather_def Let_def m
    by (simp add: assms p k cat0_def)
qed

lemma gather_short_size:
  assumes "float32_of_nat (size0 t) < size0 t"
  shows "concat_all_gather [] [] t = Inl RuntimeError"
proof -
  have m: "Max (set (map (\<lambda>t. float32_of_nat (size0 t)) ([] @ [t] @ []))) = float32_of_nat (size0 t)"
    by simp
  show ?thesis
    unfolding concat_all_gather_def Let_def m
    using assms by (simp add: pad_rows_def)
qed

lemma size0_column_replicate: "size0 (column (replicate n x)) = n"
  by (simp add: column_def size0_def)

lemma f32_a: "float32_of_nat (2 ^ 24 + 3) = 2 ^ 24 + 3 + 1"
  by (subst float32_above) simp_all

lemma f32_b: "float32_of_nat (2 ^ 24 + 1) < 2 ^ 24 + 1"
  by (subst float32_above) simp_all

subsection \<open>Writing into the queue\<close>

lemma expand_to_same:
  "size0 src = n \<Longrightarrow> size1 src = d \<Longrightarrow> expand_to n d src = Some (rows src)"
  by (simp add: expand_to_def)

lemma slice_assign_same:
  assumes "a \<le> b" "b \<le> size0 q" "size0 src = b - a" "size1 src = size1 q"
  shows "slice_assign q a b src = Inr (q\<lparr>rows := take a (rows q) @ rows src @ drop b (rows q)\<rparr>)"
proof -
  have lo: "min a (size0 q) = a" and hi: "max a (min b (size0 q)) = b"
    using assms by simp_all
  show ?thesis
    unfolding slice_assign_def Let_def lo hi
    using assms by (simp add: expand_to_same)
qed

lemma size_take_rows: "size0 (take_rows n f) = min (size0 f) n" "size1 (take_rows n f) = size1 f"
  by (simp_all add: take_rows_def size0_def)

lemma size_drop_rows: "size0 (drop_rows n f) = size0 f - n" "size1 (drop_rows n f) = size1 f"
  by (simp_all add: drop_rows_def size0_def)

lemma dequeue_and_enqueue_fits:
  assumes g: "concat_all_gather before after features = Inr feats"
    and b: "0 < size0 feats" "size0 feats \<le> memory_k s"
    and k: "size0 (queue_vector s) = memory_k s"
    and d: "size1 feats = projector_dim s" "size1 (queue_vector s) = projector_dim s"
    and p: "queue_ptr s < memory_k s"
  shows "dequeue_and_enqueue before after features s =
    (None, s\<lparr>enqueue_log := enqueue_log s @ [features],
              queue_vector := (queue_vector s)\<lparr>rows :=
                 circular_write (rows (queue_vector s)) (queue_ptr s) (rows feats)\<rparr>,
              queue_ptr := (queue_ptr s + size0 feats) mod memory_k s\<rparr>)"
proof (cases "memory_k s \<le> queue_ptr s + size0 feats")
  case True
  let ?K = "memory_k s" and ?p = "queue_ptr s" and ?B = "size0 feats"
  let ?r = "?p + ?B - ?K"
  let ?q1 = "(queue_vector s)\<lparr>rows := take ?p (rows (queue_vector s)) @ rows (take_rows (?B - ?r) feats) @ drop ?K (rows (queue_vector s))\<rparr>"
  have w1: "slice_assign (queue_vector s) ?p ?K (take_rows (?B - ?r) feats) = Inr ?q1"
    using True b k d p by (intro slice_assign_same) (auto simp: size_take_rows)
  have s1: "size0 ?q1 = ?K" "size1 ?q1 = projector_dim s"
    using True b k d p by (auto simp: size0_def take_rows_def)
  have w2: "slice_assign ?q1 0 ?r (drop_rows (?B - ?r) feats) =
      Inr (?q1\<lparr>rows := take 0 (rows ?q1) @ rows (drop_rows (?B - ?r) feats) @ drop ?r (rows ?q1)\<rparr>)"
    using True b k d p s1 by (intro slice_assign_same) (auto simp: size_drop_rows)
  have rows_eq: "take 0 (rows ?q1) @ rows (drop_rows (?B - ?r) feats) @ drop ?r (rows ?q1)
      = circular_write (rows (queue_vector s)) ?p (rows feats)"
    using True b k d p by (auto simp: circular_write_def size0_def take_rows_def drop_rows_def)
  show ?thesis
    using True b p d w1 w2 rows_eq
    by (simp add: dequeue_and_enqueue_def Let_def g)
next
  case False
  let ?K = "memory_k s" and ?p = "queue_ptr s" and ?B = "size0 feats"
  have w1: "slice_assign (queue_vector s) ?p (?p + ?B) feats =
     Inr ((queue_vector s)\<lparr>rows := take ?p (rows (queue_vector s)) @ rows feats @ drop (?p + ?B) (rows (queue_vector s))\<rparr>)"
    using False b k d p by (intro slice_assign_same) auto
  have rows_eq: "take ?p (rows (queue_vector s)) @ rows feats @ drop (?p + ?B) (rows (queue_vector s))
      = circular_write (rows (queue_vector s)) ?p (rows feats)"
    using False k by (auto simp: circular_write_def size0_def)
  show ?thesis
    using False b p d w1 rows_eq
    by (simp add: dequeue_and_enqueue_def Let_def g)
qed


lemma length_circular_write:
  "length f \<le> length q \<Longrightarrow> p < length q \<Longrightarrow> length (circular_write q p f) = length q"
  by (auto simp: circular_write_def)

lemma circular_write_nth:
  assumes "length f \<le> length q" "p < length q" "i < length f"
  shows "circular_write q p f ! ((p + i) mod length q) = f ! i"
proof (cases "p + i < length q")
  case True
  then have m: "(p + i) mod length q = p + i" by simp
  show ?thesis unfolding m using assms True
    by (auto simp: circular_write_def nth_append)
next
  case False
  then have m: "(p + i) mod length q = p + i - length q"
    using assms by (simp add: mod_if)
  show ?thesis unfolding m using assms False
    by (auto simp: circular_write_def nth_append)
qed

lemma circular_write_other:
  assumes "length f \<le> length q" "p < length q" "j < length q"
    and "\<forall>i<length f. j \<noteq> (p + i) mod length q"
  shows "circular_write q p f ! j = q ! j"
proof (cases "length q \<le> p + length f")
  case True
  have a: "p + length f - length q \<le> j"
  proof (rule ccontr)
    assume "\<not> p + length f - length q \<le> j"
    then have lt: "j < p + length f - length q" by simp
    then have "length q - p + j < length f" using assms by linarith
    moreover have "(p + (length q - p + j)) mod length q = j"
      using assms by simp
    ultimately show False using assms(4) by metis
  qed
  have b: "j < p"
  proof (rule ccontr)
    assume n: "\<not> j < p"
    have 1: "j - p < length f" using n assms True by linarith
    have 2: "(p + (j - p)) mod length q = j" using n assms by simp
    show False using 1 2 assms(4) by metis
  qed
  show ?thesis using assms True a b
    by (auto simp: circular_write_def nth_append)
next
  case False
  have "j < p \<or> p + length f \<le> j"
  proof (rule ccontr)
    assume n: "\<not> (j < p \<or> p + length f \<le> j)"
    have 1: "j - p < length f" using n by linarith
    have 2: "(p + (j - p)) mod length q = j" using n assms by simp
    show False using 1 2 assms(4) by metis
  qed
  then show ?thesis using assms False
    by (auto simp: circular_write_def nth_append)
qed

lemma slice_assign_inv:
  assumes "slice_assign q a b src = Inr q'" "size1 src = size1 q"
  shows "size0 q' = size0 q" "size1 q' = size1 q" "set (rows q') \<subseteq> set (rows q) \<union> set (rows src)"
proof -
  define lo where "lo = min a (size0 q)"
  define hi where "hi = max lo (min b (size0 q))"
  define rs where "rs = (if size0 src = hi - lo then rows src else replicate (hi - lo) (hd (rows src)))"
  have bounds: "lo \<le> hi" "hi \<le> length (rows q)"
    by (simp_all add: lo_def hi_def size0_def)
  have unf: "slice_assign q a b src =
      (case expand_to (hi - lo) (size1 q) src of None \<Rightarrow> Inl RuntimeError
       | Some rs \<Rightarrow> Inr (q\<lparr>rows := take lo (rows q) @ rs @ drop hi (rows q)\<rparr>))"
    unfolding slice_assign_def Let_def lo_def hi_def by (rule refl)
  have ok: "size0 src = hi - lo \<or> size0 src = 1"
    using assms unfolding unf by (auto simp: expand_to_def split: if_splits)
  have ex: "expand_to (hi - lo) (size1 q) src = Some rs"
    using ok assms(2) by (simp add: expand_to_def rs_def)
  have q': "q' = q\<lparr>rows := take lo (rows q) @ rs @ drop hi (rows q)\<rparr>"
    using assms(1) unfolding unf ex by simp
  have len: "length rs = hi - lo"
    by (simp add: rs_def size0_def)
  have sub: "set rs \<subseteq> set (rows src)"
  proof (cases "size0 src = hi - lo")
    case True then show ?thesis by (simp add: rs_def)
  next
    case False
    then have "size0 src = 1" using ok by blast
    then have "rows src \<noteq> []" by (auto simp: size0_def)
    then have "hd (rows src) \<in> set (rows src)" by simp
    then show ?thesis using False by (auto simp: rs_def simp del: hd_in_set)
  qed
  show "size0 q' = size0 q"
    unfolding q' size0_def using len bounds by simp
  show "size1 q' = size1 q" unfolding q' by simp
  have "set (take lo (rows q)) \<subseteq> set (rows q)" "set (drop hi (rows q)) \<subseteq> set (rows q)"
    by (rule set_take_subset, rule set_drop_subset)
  then show "set (rows q') \<subseteq> set (rows q) \<union> set (rows src)"
    unfolding q' using sub by auto
qed

lemma dequeue_and_enqueue_frame:
  "memory_k (snd (dequeue_and_enqueue before after features s)) = memory_k s
   \<and> projector_dim (snd (dequeue_and_enqueue before after features s)) = projector_dim s
   \<and> enqueue_log (snd (dequeue_and_enqueue before after features s)) = enqueue_log s @ [features]"
  unfolding dequeue_and_enqueue_def Let_def
  by (simp split: sum.split)

lemma gather_alone: "size0 f \<le> 2 ^ 24 \<Longrightarrow> concat_all_gather [] [] f = Inr f"
  using concat_all_gather_exact [of "[]" f "[]" "size1 f"] by simp

lemma dequeue_and_enqueue_empty:
  assumes "concat_all_gather before after features = Inr merged" "size0 merged = 0"
  shows "dequeue_and_enqueue before after features s =
           (None, s\<lparr>enqueue_log := enqueue_log s @ [features]\<rparr>)"
  using assms by (simp add: dequeue_and_enqueue_def Let_def)

lemma size0_concat: "length (concat (map rows ts)) = sum_list (map size0 ts)"
  by (induction ts) (simp_all add: size0_def)

subsection \<open>C4: the gather returns the concatenation of the workers' rows\<close>

text \<open>
Claim C4, as amended. When the workers pass tensors of one width, each with at most
  \<open>2 ^ 24\<close> rows (the sizes travel as float32 values, which are exact up to there), every
  worker's tensor is padded with zero rows to the largest size, cutting the padded tensor
  back to the worker's size gives the worker's tensor again, and \<^verbatim>\<open>concat_all_gather\<close>
  returns the workers' rows concatenated in rank order, as many as the sizes add up to.
  Whenever the gathered tensor has no row, \<^verbatim>\<open>_dequeue_and_enqueue\<close> returns without
  touching the queue or the cursor: only the record of the call is added.
\<close>

theorem concat_all_gather_concatenates:
  "(\<forall>t \<in> set (before @ [features] @ after). size1 t = d \<and> size0 t \<le> 2 ^ 24) \<longrightarrow>
     (let world = before @ [features] @ after;
          max_batch = Max (set (map size0 world))
      in (\<forall>t \<in> set world.
             pad_rows max_batch t = Inr (padded_to max_batch t)
           \<and> size0 (padded_to max_batch t) = max_batch
           \<and> take_rows (size0 t) (padded_to max_batch t) = t)
       \<and> concat_all_gather before after features =
            Inr \<lparr>size1 = d, rows = concat (map rows world)\<rparr>
       \<and> size0 \<lparr>size1 = d, rows = concat (map rows world)\<rparr> = sum_list (map size0 world))
   \<and> (\<forall>merged. concat_all_gather before after features = Inr merged \<and> size0 merged = 0 \<longrightarrow>
         dequeue_and_enqueue before after features s =
           (None, s\<lparr>enqueue_log := enqueue_log s @ [features]\<rparr>))"
proof (intro conjI impI allI)
  assume w: "\<forall>t \<in> set (before @ [features] @ after). size1 t = d \<and> size0 t \<le> 2 ^ 24"
  let ?world = "before @ [features] @ after"
  let ?m = "Max (set (map size0 ?world))"
  have le: "size0 t \<le> ?m" if "t \<in> set ?world" for t
    using that by (intro Max_ge) auto
  have pad: "\<forall>t \<in> set ?world.
             pad_rows ?m t = Inr (padded_to ?m t)
           \<and> size0 (padded_to ?m t) = ?m
           \<and> take_rows (size0 t) (padded_to ?m t) = t"
  proof
    fix t assume t: "t \<in> set ?world"
    have "size0 (padded_to ?m t) = ?m"
      using le [OF t] by (simp add: padded_to_def size0_def)
    then show "pad_rows ?m t = Inr (padded_to ?m t)
           \<and> size0 (padded_to ?m t) = ?m
           \<and> take_rows (size0 t) (padded_to ?m t) = t"
      using le [OF t] by (simp add: pad_rows_ok take_rows_padded)
  qed
  show "let world = before @ [features] @ after;
          max_batch = Max (set (map size0 world))
      in (\<forall>t \<in> set world.
             pad_rows max_batch t = Inr (padded_to max_batch t)
           \<and> size0 (padded_to max_batch t) = max_batch
           \<and> take_rows (size0 t) (padded_to max_batch t) = t)
       \<and> concat_all_gather before after features =
            Inr \<lparr>size1 = d, rows = concat (map rows world)\<rparr>
       \<and> size0 \<lparr>size1 = d, rows = concat (map rows world)\<rparr> = sum_list (map size0 world)"
    unfolding Let_def
    using pad concat_all_gather_exact [OF w] size0_concat [of ?world]
    by (simp only: size0_def tensor.simps simp_thms)
next
  fix merged
  assume "concat_all_gather before after features = Inr merged \<and> size0 merged = 0"
  then show "dequeue_and_enqueue before after features s =
           (None, s\<lparr>enqueue_log := enqueue_log s @ [features]\<rparr>)"
    by (simp add: dequeue_and_enqueue_empty)
qed

theorem concat_all_gather_concatenates_witness:
  "concat_all_gather [column [1, 2]] [column [5]] (column []) = Inr (column [1, 2, 5])
   \<and> pad_rows 2 (column []) = Inr (column [0, 0])
   \<and> pad_rows 2 (column [5]) = Inr (column [5, 0])
   \<and> take_rows 1 (column [5, 0]) = column [5]
   \<and> dequeue_and_enqueue [] [] (column []) (small_queue [[10], [11]] 1) =
        (None, (small_queue [[10], [11]] 1)\<lparr>enqueue_log := [column []]\<rparr>)"
proof -
  have m: "Max (set (map size0 ([column [1, 2]] @ [column []] @ [column [5]]))) = 2"
    by (simp add: column_def size0_def)
  have e: "concat_all_gather [] [] (column []) = Inr (column [])"
    by (rule gather_alone) (simp add: column_def size0_def)
  have n: "Max (set (map size0 ([] @ [column []] @ []))) = 0"
    by (simp add: column_def size0_def)
  have r: "replicate 2 [0::real] = [[0], [0]]"
    by (simp add: numeral_2_eq_2)
  note w = concat_all_gather_concatenates [of "[column [1, 2]]" "column []" "[column [5]]" 1
      "small_queue [[10], [11]] 1", unfolded Let_def m]
  note z = concat_all_gather_concatenates [of "[]" "column []" "[]" 1
      "small_queue [[10], [11]] 1", unfolded Let_def n]
  have 1: "concat_all_gather [column [1, 2]] [column [5]] (column []) = Inr (column [1, 2, 5])
   \<and> pad_rows 2 (column []) = Inr (column [0, 0])
   \<and> pad_rows 2 (column [5]) = Inr (column [5, 0])
   \<and> take_rows 1 (column [5, 0]) = column [5]"
    using w by (simp add: column_def size0_def padded_to_def r)
  have 2: "dequeue_and_enqueue [] [] (column []) (small_queue [[10], [11]] 1) =
        (None, (small_queue [[10], [11]] 1)\<lparr>enqueue_log := [column []]\<rparr>)"
    using z e by (simp add: column_def size0_def small_queue_def)
  show ?thesis using 1 2 by simp
qed

text \<open>
Claim C4 as stated, for every list of tensors, fails beyond \<open>2 ^ 24\<close> rows. A single worker
  with \<open>2 ^ 24 + 3\<close> rows reads its own size back as \<open>2 ^ 24 + 4\<close>: the gather returns
  its rows followed by one row of padding, one row more than the sizes add up to. With
  \<open>2 ^ 24 + 1\<close> rows the size comes back as \<open>2 ^ 24\<close> and the padding, of \<open>-1\<close> rows,
  raises.
\<close>

theorem gather_large_counterexample:
  "concat_all_gather [] [] (column (replicate (2 ^ 24 + 3) 1))
     = Inr (column (replicate (2 ^ 24 + 3) 1 @ [0]))
   \<and> size0 (column (replicate (2 ^ 24 + 3) 1 @ [0])) = 2 ^ 24 + 4
   \<and> sum_list (map size0 [column (replicate (2 ^ 24 + 3) 1)]) = 2 ^ 24 + 3
   \<and> concat_all_gather [] [] (column (replicate (2 ^ 24 + 1) 1)) = Inl RuntimeError"
proof -
  let ?t = "column (replicate (2 ^ 24 + 3) 1)"
  have "float32_of_nat (size0 ?t) = Suc (size0 ?t)"
    unfolding size0_column_replicate using f32_a by simp
  then have 1: "concat_all_gather [] [] ?t = Inr \<lparr>size1 = size1 ?t, rows = rows ?t @ [replicate (size1 ?t) 0]\<rparr>"
    by (rule gather_padded_row)
  have 2: "\<lparr>size1 = size1 ?t, rows = rows ?t @ [replicate (size1 ?t) 0]\<rparr> = column (replicate (2 ^ 24 + 3) 1 @ [0])"
    by (simp add: column_def)
  have 3: "size0 (column (replicate (2 ^ 24 + 3) 1 @ [0])) = 2 ^ 24 + 4"
    by (simp add: column_def size0_def)
  have "float32_of_nat (size0 (column (replicate (2 ^ 24 + 1) 1))) < size0 (column (replicate (2 ^ 24 + 1) 1))"
    unfolding size0_column_replicate by (rule f32_b)
  then have 4: "concat_all_gather [] [] (column (replicate (2 ^ 24 + 1) 1)) = Inl RuntimeError"
    by (rule gather_short_size)
  show ?thesis using 1 2 3 4 by (simp add: size0_column_replicate)
qed

subsection \<open>C1: writing at the cursor with wraparound\<close>

text \<open>
Claim C1, as amended. For a gathered batch of \<open>B\<close> rows with \<open>0 < B \<le> K\<close>, written into a
  queue of \<open>K\<close> rows at cursor \<open>ptr < K\<close>: the call raises nothing, row \<open>i\<close> of the batch
  ends at position \<open>(ptr + i) mod K\<close>, every other position keeps its row, and the cursor
  becomes \<open>(ptr + B) mod K\<close>. When \<open>ptr + B\<close> exceeds \<open>K\<close>, the first \<open>K - ptr\<close> rows are at
  positions \<open>ptr..K-1\<close> and the remaining \<open>B - (K - ptr)\<close> rows at positions
  \<open>0..B-(K-ptr)-1\<close>; with \<open>ptr = K - 3\<close> and \<open>B = 5\<close> the cursor becomes 2.
\<close>

theorem enqueue_wraparound:
  assumes g: "concat_all_gather before after features = Inr feats"
    and b: "0 < size0 feats" "size0 feats \<le> memory_k s"
    and k: "size0 (queue_vector s) = memory_k s"
    and d: "size1 feats = projector_dim s" "size1 (queue_vector s) = projector_dim s"
    and p: "queue_ptr s < memory_k s"
  shows "let K = memory_k s; ptr = queue_ptr s; B = size0 feats;
             r = dequeue_and_enqueue before after features s;
             q = rows (queue_vector s); q' = rows (queue_vector (snd r))
         in fst r = None
          \<and> queue_ptr (snd r) = (ptr + B) mod K
          \<and> length q' = K
          \<and> (\<forall>i<B. q' ! ((ptr + i) mod K) = rows feats ! i)
          \<and> (\<forall>j<K. (\<forall>i<B. j \<noteq> (ptr + i) mod K) \<longrightarrow> q' ! j = q ! j)
          \<and> (K < ptr + B \<longrightarrow>
                (\<forall>i<K - ptr. q' ! (ptr + i) = rows feats ! i)
              \<and> (\<forall>j<B - (K - ptr). q' ! j = rows feats ! (K - ptr + j)))
          \<and> (ptr + 3 = K \<and> B = 5 \<longrightarrow> queue_ptr (snd r) = 2)"
proof -
  let ?K = "memory_k s" and ?p = "queue_ptr s" and ?B = "size0 feats"
  let ?q = "rows (queue_vector s)" and ?f = "rows feats"
  let ?q' = "circular_write ?q ?p ?f"
  have len: "length ?f \<le> length ?q" "?p < length ?q" "length ?q = ?K" "length ?f = ?B"
    using b k p by (simp_all add: size0_def)
  have res: "dequeue_and_enqueue before after features s =
    (None, s\<lparr>enqueue_log := enqueue_log s @ [features],
              queue_vector := (queue_vector s)\<lparr>rows := ?q'\<rparr>,
              queue_ptr := (?p + ?B) mod ?K\<rparr>)"
    using assms by (rule dequeue_and_enqueue_fits)
  have 1: "length ?q' = ?K"
    using length_circular_write [OF len(1,2)] len(3) by simp
  have 2: "\<forall>i<?B. ?q' ! ((?p + i) mod ?K) = ?f ! i"
    using circular_write_nth [OF len(1,2)] len(3,4) by simp
  have 3: "\<forall>j<?K. (\<forall>i<?B. j \<noteq> (?p + i) mod ?K) \<longrightarrow> ?q' ! j = ?q ! j"
    using circular_write_other [OF len(1,2)] len(3,4) by simp
  have 4: "\<forall>i<?K - ?p. ?q' ! (?p + i) = ?f ! i" if "?K < ?p + ?B"
  proof (intro allI impI)
    fix i assume i: "i < ?K - ?p"
    then have "i < ?B" using that by simp
    then have "?q' ! ((?p + i) mod ?K) = ?f ! i" using 2 by simp
    moreover have "(?p + i) mod ?K = ?p + i" using i by simp
    ultimately show "?q' ! (?p + i) = ?f ! i" by simp
  qed
  have 5: "\<forall>j<?B - (?K - ?p). ?q' ! j = ?f ! (?K - ?p + j)" if "?K < ?p + ?B"
  proof (intro allI impI)
    fix j assume j: "j < ?B - (?K - ?p)"
    then have "?K - ?p + j < ?B" by simp
    then have "?q' ! ((?p + (?K - ?p + j)) mod ?K) = ?f ! (?K - ?p + j)" using 2 by simp
    moreover have "(?p + (?K - ?p + j)) mod ?K = j" using j p b by simp
    ultimately show "?q' ! j = ?f ! (?K - ?p + j)" by simp
  qed
  have 6: "(?p + ?B) mod ?K = 2" if "?p + 3 = ?K" "?B = 5"
  proof -
    have "?p + ?B = 2 + ?K" using that by simp
    then have "(?p + ?B) mod ?K = 2 mod ?K" by (simp del: add_2_eq_Suc add_2_eq_Suc')
    moreover have "2 < ?K" using that b by simp
    ultimately show ?thesis by simp
  qed
  show ?thesis
    unfolding Let_def res using 1 2 3 4 5 6 by simp
qed

theorem enqueue_wraparound_witness:
  "fst (dequeue_and_enqueue [] [] (column [0, 1, 2, 3, 4])
          (small_queue [[10], [11], [12], [13], [14], [15]] 3)) = None
   \<and> queue_ptr (snd (dequeue_and_enqueue [] [] (column [0, 1, 2, 3, 4])
          (small_queue [[10], [11], [12], [13], [14], [15]] 3))) = 2
   \<and> map ((!) (rows (queue_vector (snd (dequeue_and_enqueue [] [] (column [0, 1, 2, 3, 4])
          (small_queue [[10], [11], [12], [13], [14], [15]] 3))))))
         [3, 4, 5, 0, 1, 2] = [[0], [1], [2], [3], [4], [12]]"
proof -
  let ?s = "small_queue [[10], [11], [12], [13], [14], [15]] 3"
  let ?f = "column [0, 1, 2, 3, 4]"
  let ?q' = "rows (queue_vector (snd (dequeue_and_enqueue [] [] ?f ?s)))"
  have g: "concat_all_gather [] [] ?f = Inr ?f"
    by (rule gather_alone) (simp add: column_def size0_def)
  note t = enqueue_wraparound [OF g, of ?s, unfolded Let_def]
  have t': "fst (dequeue_and_enqueue [] [] ?f ?s) = None
     \<and> queue_ptr (snd (dequeue_and_enqueue [] [] ?f ?s)) = 2
     \<and> (\<forall>i<5. ?q' ! ((3 + i) mod 6) = rows ?f ! i)
     \<and> (\<forall>j<6. (\<forall>i<5. j \<noteq> (3 + i) mod 6) \<longrightarrow> ?q' ! j = [[10], [11], [12], [13], [14], [15]] ! j)"
    using t by (simp add: size0_def small_queue_def column_def)
  have a: "?q' ! ((3 + i) mod 6) = rows ?f ! i" if "i < 5" for i
    using t' that by blast
  have u: "\<forall>i<5. (2::nat) \<noteq> (3 + i) mod 6"
    by presburger
  have b: "?q' ! j = [[10], [11], [12], [13], [14], [15]] ! j"
    if "j < 6" "\<forall>i<5. j \<noteq> (3 + i) mod 6" for j
    using t' that by blast
  have c: "?q' ! 2 = [12]"
    using b [of 2] u by simp
  show ?thesis
    using t' a [of 0] a [of 1] a [of 2] a [of 3] a [of 4] c by (simp add: column_def)
qed

text \<open>
Claim C1 as stated, for every batch size \<open>B > 0\<close>, fails when the batch is larger than
  the queue: with capacity 2, cursor 0 and a batch of 5 rows the second slice
  assignment receives 3 rows for a slice of 2 and raises; the cursor stays 0 although
  \<open>(0 + 5) mod 2 = 1\<close>.
\<close>

theorem oversized_batch_counterexample:
  "fst (dequeue_and_enqueue [] [] (column [0, 1, 2, 3, 4]) (small_queue [[10], [11]] 0)) = Some RuntimeError
   \<and> queue_ptr (snd (dequeue_and_enqueue [] [] (column [0, 1, 2, 3, 4]) (small_queue [[10], [11]] 0))) = 0
   \<and> (queue_ptr (small_queue [[10], [11]] 0) + size0 (column [0, 1, 2, 3, 4])) mod
       memory_k (small_queue [[10], [11]] 0) = 1"
proof -
  have g: "concat_all_gather [] [] (column [0, 1, 2, 3, 4]) = Inr (column [0, 1, 2, 3, 4])"
    by (rule gather_alone) (simp add: column_def size0_def)
  have r: "dequeue_and_enqueue [] [] (column [0, 1, 2, 3, 4]) (small_queue [[10], [11]] 0) =
      (Some RuntimeError,
       (small_queue [[10], [11]] 0)\<lparr>enqueue_log := [column [0, 1, 2, 3, 4]],
          queue_vector := \<lparr>size1 = 1, rows = [[0], [1]]\<rparr>\<rparr>)"
    unfolding dequeue_and_enqueue_def Let_def g
    by (simp add: column_def small_queue_def size0_def slice_assign_def expand_to_def
        take_rows_def drop_rows_def)
  have sz: "size0 (column [0, 1, 2, 3, 4]) = 5" "memory_k (small_queue [[10], [11]] 0) = 2"
      "queue_ptr (small_queue [[10], [11]] 0) = 0"
    by (simp_all add: small_queue_def column_def size0_def)
  show ?thesis
    unfolding r sz by (simp add: small_queue_def)
qed

subsection \<open>Rounding to float32 in the examples\<close>

lemma fl32_zero: "fl32 0 = 0"
  by (simp add: fl32_def)

lemma fl32_eval:
  assumes "2 powr of_int k \<le> \<bar>x\<bar>" "\<bar>x\<bar> < 2 powr of_int (k + 1)" "- 126 \<le> k"
  shows "fl32 x = of_int (round_even (x / 2 powr of_int (k - 23))) * 2 powr of_int (k - 23)"
proof -
  have "(0 :: real) < 2 powr of_int k" by simp
  then have pos: "0 < \<bar>x\<bar>" using assms(1) by linarith
  then have nz: "x \<noteq> 0" by auto
  have "\<lfloor>log 2 \<bar>x\<bar>\<rfloor> = k"
    using pos assms(1,2) by (subst floor_log_eq_powr_iff) simp_all
  then have "max \<lfloor>log 2 \<bar>x\<bar>\<rfloor> (- 126) - 23 = k - 23"
    using assms(3) by simp
  then show ?thesis using nz by (simp add: fl32_def Let_def)
qed

lemma round_even_int: "round_even (of_int n) = n"
  by (simp add: round_even_def)

lemma round_even_numeral: "round_even (numeral n) = numeral n"
  by (simp add: round_even_def)

lemma powr_neg_nat: "(2 :: real) powr (- real n) = 1 / 2 ^ n"
  by (simp add: powr_minus powr_realpow divide_inverse)

lemma fl32_small:
  assumes "1 / 2 ^ n \<le> \<bar>x\<bar>" "\<bar>x\<bar> < 2 / 2 ^ n" "n \<le> 126"
  shows "fl32 x = of_int (round_even (x * 2 ^ (n + 23))) / 2 ^ (n + 23)"
proof -
  have h1: "2 powr of_int (- int n) \<le> \<bar>x\<bar>"
    using assms(1) by (simp add: powr_neg_nat)
  have "(2 :: real) powr (- real n + 1) = 2 powr (- real n) * 2 powr 1"
    by (rule powr_add)
  then have "(2 :: real) powr of_int (- int n + 1) = 2 / 2 ^ n"
    by (simp add: powr_neg_nat)
  then have h2: "\<bar>x\<bar> < 2 powr of_int (- int n + 1)"
    using assms(2) by simp
  have "real_of_int (- int n - 23) = - real (n + 23)" by simp
  then have q: "(2 :: real) powr of_int (- int n - 23) = 1 / 2 ^ (n + 23)"
    by (simp only: powr_neg_nat)
  have "fl32 x = of_int (round_even (x / 2 powr of_int (- int n - 23))) * 2 powr of_int (- int n - 23)"
    using h1 h2 assms(3) by (intro fl32_eval) simp_all
  then show ?thesis unfolding q by simp
qed

lemma fl32_large:
  assumes "2 ^ n \<le> \<bar>x\<bar>" "\<bar>x\<bar> < 2 * 2 ^ n" "n \<le> 23"
  shows "fl32 x = of_int (round_even (x * 2 ^ (23 - n))) / 2 ^ (23 - n)"
proof -
  have h1: "2 powr of_int (int n) \<le> \<bar>x\<bar>"
    using assms(1) by (simp add: powr_realpow)
  have "(2 :: real) powr (real n + 1) = 2 powr real n * 2 powr 1"
    by (rule powr_add)
  then have "(2 :: real) powr of_int (int n + 1) = 2 * 2 ^ n"
    by (simp add: powr_realpow)
  then have h2: "\<bar>x\<bar> < 2 powr of_int (int n + 1)"
    using assms(2) by simp
  have "real_of_int (int n - 23) = - real (23 - n)"
    using assms(3) by simp
  then have q: "(2 :: real) powr of_int (int n - 23) = 1 / 2 ^ (23 - n)"
    by (simp only: powr_neg_nat)
  have "fl32 x = of_int (round_even (x / 2 powr of_int (int n - 23))) * 2 powr of_int (int n - 23)"
    using h1 h2 by (intro fl32_eval) simp_all
  then show ?thesis unfolding q by simp
qed

lemma fl32_values:
  "fl32 1 = 1" "fl32 2 = 2" "fl32 4 = 4" "fl32 5 = 5" "fl32 9 = 9" "fl32 16 = 16" "fl32 25 = 25"
  "fl32 (1 / 2) = 1 / 2" "fl32 (1 / 4) = 1 / 4"
proof -
  show "fl32 1 = 1" by (subst fl32_large [of 0]) (simp_all add: round_even_numeral)
  show "fl32 2 = 2" by (subst fl32_large [of 1]) (simp_all add: round_even_numeral)
  show "fl32 4 = 4" by (subst fl32_large [of 2]) (simp_all add: round_even_numeral)
  show "fl32 5 = 5" by (subst fl32_large [of 2]) (simp_all add: round_even_numeral)
  show "fl32 9 = 9" by (subst fl32_large [of 3]) (simp_all add: round_even_numeral)
  show "fl32 16 = 16" by (subst fl32_large [of 4]) (simp_all add: round_even_numeral)
  show "fl32 25 = 25" by (subst fl32_large [of 4]) (simp_all add: round_even_numeral)
  show "fl32 (1 / 2) = 1 / 2" by (subst fl32_small [of 1]) (simp_all add: round_even_numeral)
  show "fl32 (1 / 4) = 1 / 4" by (subst fl32_small [of 2]) (simp_all add: round_even_numeral)
qed

lemma fl32_fractions:
  "fl32 (1 / 3) = 11184811 / 33554432" "fl32 (1 / 7) = 9586981 / 67108864"
  "fl32 (3 / 5) = 5033165 / 8388608" "fl32 (4 / 5) = 13421773 / 16777216"
  "fl32 (1 / 1000000000000) = 9223372 / 9223372036854775808"
proof -
  show "fl32 (1 / 3) = 11184811 / 33554432"
    by (subst fl32_small [of 2]) (simp_all add: round_even_def)
  show "fl32 (1 / 7) = 9586981 / 67108864"
    by (subst fl32_small [of 3]) (simp_all add: round_even_def)
  show "fl32 (3 / 5) = 5033165 / 8388608"
    by (subst fl32_small [of 1]) (simp_all add: round_even_def)
  show "fl32 (4 / 5) = 13421773 / 16777216"
    by (subst fl32_small [of 1]) (simp_all add: round_even_def)
  show "fl32 (1 / 1000000000000) = 9223372 / 9223372036854775808"
    by (subst fl32_small [of 40]) (simp_all add: round_even_def)
qed

lemma fl32_products:
  "fl32 (78293677 / 33554432) = 4893355 / 2097152"
  "fl32 (28760943 / 67108864) = 1797559 / 4194304"
  "fl32 (8796094320445 / 8796093022208) = 8388609 / 8388608"
  "fl32 (4893355 / 2097152) = 4893355 / 2097152"
  "fl32 (1797559 / 4194304) = 1797559 / 4194304"
  "fl32 (8388609 / 8388608) = 8388609 / 8388608"
proof -
  show "fl32 (78293677 / 33554432) = 4893355 / 2097152"
    by (subst fl32_large [of 1]) (simp_all add: round_even_def)
  show "fl32 (28760943 / 67108864) = 1797559 / 4194304"
    by (subst fl32_small [of 2]) (simp_all add: round_even_def)
  show "fl32 (8796094320445 / 8796093022208) = 8388609 / 8388608"
    by (subst fl32_large [of 0]) (simp_all add: round_even_def)
  show "fl32 (4893355 / 2097152) = 4893355 / 2097152"
    by (subst fl32_large [of 1]) (simp_all add: round_even_def)
  show "fl32 (1797559 / 4194304) = 1797559 / 4194304"
    by (subst fl32_small [of 2]) (simp_all add: round_even_def)
  show "fl32 (8388609 / 8388608) = 8388609 / 8388608"
    by (subst fl32_large [of 0]) (simp_all add: round_even_def)
qed

lemma sqrt_25: "sqrt 25 = 5"
  by (rule real_sqrt_unique) simp_all

lemma float32_normalize_rows:
  "float32_normalize_row [3, 4] = [5033165 / 8388608, 13421773 / 16777216]"
  "float32_normalize_row [0, 1] = [0, 1]"
  "float32_normalize_row [1] = [1]"
  by (simp_all add: float32_normalize_row_def fl32_zero fl32_values fl32_fractions sqrt_25)

lemma unit_row_bounds:
  assumes "0 \<le> tol" "(1 - tol)\<^sup>2 \<le> sum_list (map (\<lambda>x. x\<^sup>2) r)"
    "sum_list (map (\<lambda>x. x\<^sup>2) r) \<le> (1 + tol)\<^sup>2"
  shows "unit_row tol r"
proof -
  have "1 - tol \<le> l2norm r"
    unfolding l2norm_def using assms(2) by (rule real_le_rsqrt)
  moreover have "l2norm r \<le> 1 + tol"
    unfolding l2norm_def using assms(1,3) by (intro real_le_lsqrt) simp_all
  ultimately show ?thesis by (simp add: unit_row_def abs_le_iff)
qed

subsection \<open>C2: the queue's shape, normalised rows and cursor range\<close>

lemma unit_rows_subset:
  "set (rows t) \<subseteq> A \<Longrightarrow> \<forall>r \<in> A. unit_row tol r \<Longrightarrow> unit_rows tol t"
  by (auto simp: unit_rows_def list_all_iff)

lemma slice_assign_keeps:
  assumes a: "slice_assign q a b src = Inr q'" and w: "size1 src = size1 q"
    and uq: "unit_rows tol q" and us: "\<forall>r \<in> set (rows src). unit_row tol r"
  shows "size0 q' = size0 q \<and> size1 q' = size1 q \<and> unit_rows tol q'"
proof -
  have "set (rows q') \<subseteq> set (rows q) \<union> set (rows src)"
    using slice_assign_inv(3) [OF a w] .
  moreover have "\<forall>r \<in> set (rows q) \<union> set (rows src). unit_row tol r"
    using uq us by (auto simp: unit_rows_def list_all_iff)
  ultimately have "unit_rows tol q'" by (rule unit_rows_subset)
  then show ?thesis using slice_assign_inv(1,2) [OF a w] by simp
qed

lemma dequeue_and_enqueue_inv:
  assumes inv: "queue_inv tol s"
    and w: "\<forall>t \<in> set (before @ [features] @ after). unit_rows tol t \<and> size0 t \<le> 2 ^ 24"
  shows "queue_inv tol (snd (dequeue_and_enqueue before after features s))"
proof (cases "concat_all_gather before after features")
  case (Inl e)
  then show ?thesis using inv
    by (simp add: dequeue_and_enqueue_def Let_def queue_inv_def)
next
  case (Inr feats)
  have sz: "\<forall>t \<in> set (before @ [features] @ after). size0 t \<le> 2 ^ 24" using w by blast
  have rws: "rows feats = concat (map rows (before @ [features] @ after))"
    using concat_all_gather_rows [OF sz Inr] .
  have uf: "\<forall>r \<in> set (rows feats). unit_row tol r"
    unfolding rws using w by (auto simp: unit_rows_def list_all_iff)
  let ?s = "s\<lparr>enqueue_log := enqueue_log s @ [features]\<rparr>"
  let ?B = "size0 feats" and ?K = "memory_k s" and ?p = "queue_ptr s"
  have K: "0 < ?K" using inv by (auto simp: queue_inv_def)
  show ?thesis
  proof (cases "?B = 0 \<or> size1 feats \<noteq> projector_dim s")
    case True
    then show ?thesis using inv Inr
      by (auto simp: dequeue_and_enqueue_def Let_def queue_inv_def)
  next
    case False
    then have B: "?B \<noteq> 0" and d: "size1 feats = size1 (queue_vector s)"
      using inv by (auto simp: queue_inv_def)
    have ut: "\<forall>r \<in> set (rows (take_rows n feats)). unit_row tol r" for n
      using uf by (auto simp: take_rows_def dest: in_set_takeD)
    have ud: "\<forall>r \<in> set (rows (drop_rows n feats)). unit_row tol r" for n
      using uf by (auto simp: drop_rows_def dest: in_set_dropD)
    show ?thesis
    proof (cases "?K \<le> ?p + ?B")
      case wrap: True
      let ?r = "?p + ?B - ?K"
      show ?thesis
      proof (cases "slice_assign (queue_vector s) ?p ?K (take_rows (?B - ?r) feats)")
        case (Inl e)
        then show ?thesis using inv Inr False wrap
          by (simp add: dequeue_and_enqueue_def Let_def queue_inv_def)
      next
        case q1: (Inr q1)
        have k1: "size0 q1 = size0 (queue_vector s) \<and> size1 q1 = size1 (queue_vector s) \<and> unit_rows tol q1"
          using q1 d inv ut by (intro slice_assign_keeps [where src = "take_rows (?B - ?r) feats" and a = ?p and b = ?K])
            (auto simp: take_rows_def queue_inv_def)
        show ?thesis
        proof (cases "slice_assign q1 0 ?r (drop_rows (?B - ?r) feats)")
          case (Inl e)
          then show ?thesis using inv Inr False wrap q1 k1
            by (simp add: dequeue_and_enqueue_def Let_def queue_inv_def)
        next
          case q2: (Inr q2)
          have k2: "size0 q2 = size0 q1 \<and> size1 q2 = size1 q1 \<and> unit_rows tol q2"
            using q2 d k1 ud by (intro slice_assign_keeps [where src = "drop_rows (?B - ?r) feats" and a = 0 and b = ?r])
              (auto simp: drop_rows_def)
          show ?thesis using inv Inr False wrap q1 q2 k1 k2 K
            by (simp add: dequeue_and_enqueue_def Let_def queue_inv_def)
        qed
      qed
    next
      case nowrap: False
      show ?thesis
      proof (cases "slice_assign (queue_vector s) ?p (?p + ?B) feats")
        case (Inl e)
        then show ?thesis using inv Inr False nowrap
          by (simp add: dequeue_and_enqueue_def Let_def queue_inv_def)
      next
        case q1: (Inr q1)
        have k1: "size0 q1 = size0 (queue_vector s) \<and> size1 q1 = size1 (queue_vector s) \<and> unit_rows tol q1"
          using q1 d inv uf by (intro slice_assign_keeps [where src = feats and a = ?p and b = "?p + ?B"])
            (auto simp: queue_inv_def)
        show ?thesis using inv Inr False nowrap q1 k1 K
          by (simp add: dequeue_and_enqueue_def Let_def queue_inv_def)
      qed
    qed
  qed
qed

lemma soft_teacher_init_inv:
  assumes "0 < k" "\<forall>r \<in> set (rows (randn src k d)). unit_row tol (normalize_row kn r)"
  shows "queue_inv tol (soft_teacher_init k d t1 t2 n2 kn src)"
proof -
  have "unit_rows tol (normalize kn (randn src k d))"
    using assms(2) by (auto simp: unit_rows_def list_all_iff normalize_def)
  moreover have "size0 (normalize kn (randn src k d)) = k" "size1 (normalize kn (randn src k d)) = d"
    by (simp_all add: normalize_def randn_def size0_def)
  ultimately show ?thesis
    using assms(1) by (simp add: queue_inv_def soft_teacher_init_def)
qed

lemma enqueue_all_inv:
  assumes "queue_inv tol s"
    and "\<forall>(before, after, features) \<in> set ops.
           \<forall>t \<in> set (before @ [features] @ after). unit_rows tol t \<and> size0 t \<le> 2 ^ 24"
  shows "queue_inv tol (enqueue_all ops s) \<and> memory_k (enqueue_all ops s) = memory_k s"
  using assms
proof (induction ops arbitrary: s)
  case Nil
  then show ?case by simp
next
  case (Cons op ops)
  obtain before after features where op: "op = (before, after, features)"
    by (cases op) auto
  let ?s = "snd (dequeue_and_enqueue before after features s)"
  have "queue_inv tol ?s"
    using Cons.prems unfolding op by (intro dequeue_and_enqueue_inv) auto
  moreover have "memory_k ?s = memory_k s"
    by (simp add: dequeue_and_enqueue_frame)
  ultimately show ?case
    using Cons.IH [of ?s] Cons.prems(2) unfolding op by simp
qed

lemma padding_row_enqueued:
  assumes r: "float32_of_nat (size0 f) = Suc (size0 f)"
    and k: "Suc (size0 f) \<le> memory_k s" "size0 (queue_vector s) = memory_k s"
    and d: "size1 f = projector_dim s" "size1 (queue_vector s) = projector_dim s"
    and p: "queue_ptr s < memory_k s"
    and t: "tol < 1"
  shows "\<not> unit_rows tol (queue_vector (snd (dequeue_and_enqueue [] [] f s)))"
proof -
  let ?feats = "\<lparr>size1 = size1 f, rows = rows f @ [replicate (size1 f) 0]\<rparr>"
  let ?q = "rows (queue_vector s)"
  let ?q' = "circular_write ?q (queue_ptr s) (rows ?feats)"
  have g: "concat_all_gather [] [] f = Inr ?feats"
    using r by (rule gather_padded_row)
  have sz: "size0 ?feats = Suc (size0 f)" by (simp add: size0_def)
  have res: "dequeue_and_enqueue [] [] f s =
    (None, s\<lparr>enqueue_log := enqueue_log s @ [f],
              queue_vector := (queue_vector s)\<lparr>rows := ?q'\<rparr>,
              queue_ptr := (queue_ptr s + size0 ?feats) mod memory_k s\<rparr>)"
    using g k d p by (intro dequeue_and_enqueue_fits) (simp_all add: size0_def)
  have len: "length (rows ?feats) \<le> length ?q" "queue_ptr s < length ?q"
    using k p by (simp_all add: size0_def)
  have i: "size0 f < length (rows ?feats)" by (simp add: size0_def)
  have "?q' ! ((queue_ptr s + size0 f) mod length ?q) = rows ?feats ! size0 f"
    using len i by (rule circular_write_nth)
  also have "\<dots> = replicate (size1 f) 0"
    by (simp add: size0_def nth_append)
  finally have at: "?q' ! ((queue_ptr s + size0 f) mod length ?q) = replicate (size1 f) 0" .
  have "0 < length ?q" using len(2) by (rule le_less_trans [OF le0])
  then have "(queue_ptr s + size0 f) mod length ?q < length ?q"
    by (rule mod_less_divisor)
  then have "(queue_ptr s + size0 f) mod length ?q < length ?q'"
    using length_circular_write [OF len] by simp
  then have "?q' ! ((queue_ptr s + size0 f) mod length ?q) \<in> set ?q'"
    by (rule nth_mem)
  then have m: "replicate (size1 f) 0 \<in> set ?q'" unfolding at .
  have "l2norm (replicate (size1 f) 0) = 0"
    by (simp add: l2norm_def sum_list_replicate)
  then have "\<not> unit_row tol (replicate (size1 f) 0)"
    using t by (simp add: unit_row_def)
  then have "\<not> list_all (unit_row tol) ?q'"
    using m by (auto simp: list_all_iff)
  then show ?thesis by (simp add: res unit_rows_def)
qed

lemma unit_rows_ones: "0 \<le> tol \<Longrightarrow> unit_rows tol (column (replicate n 1))"
  by (simp add: unit_rows_def column_def list_all_iff unit_row_def l2norm_def)

lemma soft_teacher_init_shape:
  "size0 (queue_vector (soft_teacher_init k d t1 t2 n2 kn src)) = k"
  "size1 (queue_vector (soft_teacher_init k d t1 t2 n2 kn src)) = d"
  "memory_k (soft_teacher_init k d t1 t2 n2 kn src) = k"
  "projector_dim (soft_teacher_init k d t1 t2 n2 kn src) = d"
  "queue_ptr (soft_teacher_init k d t1 t2 n2 kn src) = 0"
  by (simp_all add: soft_teacher_init_def normalize_def randn_def size0_def)

text \<open>
  Claim C2, as amended. Let the capacity \<open>k\<close> be positive and let \<^verbatim>\<open>F.normalize\<close> return every
  row of the random matrix drawn at construction with a norm within \<open>tol\<close> of 1. After
  construction and after any run of \<^verbatim>\<open>_dequeue_and_enqueue\<close> calls in which every worker
  passes rows normalised up to \<open>tol\<close>, at most \<open>2 ^ 24\<close> of them per call, the queue has
  exactly \<open>k\<close> rows, each normalised up to \<open>tol\<close>, and the cursor is below \<open>k\<close>. This holds
  whether or not a call raised.
\<close>

theorem queue_invariants:
  assumes "0 < k"
    and "\<forall>r \<in> set (rows (randn src k d)). unit_row tol (normalize_row kn r)"
    and "\<forall>(before, after, features) \<in> set ops.
           \<forall>t \<in> set (before @ [features] @ after). unit_rows tol t \<and> size0 t \<le> 2 ^ 24"
  shows "size0 (queue_vector (enqueue_all ops (soft_teacher_init k d t1 t2 n2 kn src))) = k
       \<and> unit_rows tol (queue_vector (enqueue_all ops (soft_teacher_init k d t1 t2 n2 kn src)))
       \<and> queue_ptr (enqueue_all ops (soft_teacher_init k d t1 t2 n2 kn src)) < k"
proof -
  let ?s0 = "soft_teacher_init k d t1 t2 n2 kn src"
  have "queue_inv tol ?s0"
    using assms(1,2) by (rule soft_teacher_init_inv)
  then have "queue_inv tol (enqueue_all ops ?s0) \<and> memory_k (enqueue_all ops ?s0) = memory_k ?s0"
    using assms(3) by (rule enqueue_all_inv)
  moreover have "memory_k ?s0 = k" by (simp add: soft_teacher_init_def)
  ultimately show ?thesis by (simp add: queue_inv_def)
qed

lemma randn_example: "randn example_draws 2 2 = \<lparr>size1 = 2, rows = [[3, 4], [0, 1]]\<rparr>"
  by (simp add: randn_def example_draws_def numeral_2_eq_2)

theorem queue_invariants_witness:
  "rows (queue_vector (soft_teacher_init 2 2 (1 / 5) (1 / 5) 2 float32_kernels example_draws))
     = [[5033165 / 8388608, 13421773 / 16777216], [0, 1]]
   \<and> size0 (queue_vector (enqueue_all [([], [], \<lparr>size1 = 2, rows = [[1, 0], [0, 1], [1, 0]]\<rparr>)]
      (soft_teacher_init 2 2 (1 / 5) (1 / 5) 2 float32_kernels example_draws))) = 2
   \<and> unit_rows (1 / 10 ^ 6) (queue_vector (enqueue_all [([], [], \<lparr>size1 = 2, rows = [[1, 0], [0, 1], [1, 0]]\<rparr>)]
      (soft_teacher_init 2 2 (1 / 5) (1 / 5) 2 float32_kernels example_draws)))
   \<and> queue_ptr (enqueue_all [([], [], \<lparr>size1 = 2, rows = [[1, 0], [0, 1], [1, 0]]\<rparr>)]
      (soft_teacher_init 2 2 (1 / 5) (1 / 5) 2 float32_kernels example_draws)) < 2"
proof -
  have n: "normalize_row float32_kernels = float32_normalize_row"
    by (simp add: float32_kernels_def)
  have q: "rows (queue_vector (soft_teacher_init 2 2 (1 / 5) (1 / 5) 2 float32_kernels example_draws))
     = [[5033165 / 8388608, 13421773 / 16777216], [0, 1]]"
    by (simp add: soft_teacher_init_def normalize_def randn_example n float32_normalize_rows)
  have u1: "unit_row (1 / 10 ^ 6) [5033165 / 8388608, 13421773 / 16777216]"
    by (rule unit_row_bounds) (simp_all add: power2_eq_square)
  have u2: "unit_row (1 / 10 ^ 6) [0, 1]"
    by (simp add: unit_row_def l2norm_def)
  have k: "(0::nat) < 2" by simp
  have d: "\<forall>r \<in> set (rows (randn example_draws 2 2)).
             unit_row (1 / 10 ^ 6) (normalize_row float32_kernels r)"
    using u1 u2 by (simp add: randn_example n float32_normalize_rows)
  have f: "\<forall>(before, after, features) \<in> set [([], [], \<lparr>size1 = 2, rows = [[1, 0], [0, 1], [1, 0]]\<rparr>)].
           \<forall>t \<in> set (before @ [features] @ after). unit_rows (1 / 10 ^ 6) t \<and> size0 t \<le> 2 ^ 24"
    by (simp add: unit_rows_def unit_row_def l2norm_def size0_def)
  show ?thesis
    using queue_invariants [OF k d f, of "1 / 5" "1 / 5" 2] q by simp
qed

text \<open>
  Claim C2 as stated, for every run of calls with normalised features, fails when a worker
  passes more than \<open>2 ^ 24\<close> rows. In a queue of \<open>2 ^ 25\<close> rows of width 1, built from draws
  that are all 1, one call with \<open>2 ^ 24 + 3\<close> rows \<open>[1]\<close> writes them and the row of padding
  that the gather returned with them: the queue holds a row of norm 0.
\<close>

theorem padding_row_counterexample:
  "unit_rows 0 (column (replicate (2 ^ 24 + 3) 1))
   \<and> unit_rows 0 (queue_vector (soft_teacher_init (2 ^ 25) 1 (1 / 5) (1 / 5) 2 float32_kernels unit_draws))
   \<and> \<not> unit_rows (1 / 2) (queue_vector (enqueue_all [([], [], column (replicate (2 ^ 24 + 3) 1))]
          (soft_teacher_init (2 ^ 25) 1 (1 / 5) (1 / 5) 2 float32_kernels unit_draws)))"
proof -
  let ?f = "column (replicate (2 ^ 24 + 3) 1)"
  let ?s = "soft_teacher_init (2 ^ 25) 1 (1 / 5) (1 / 5) 2 float32_kernels unit_draws"
  have 1: "unit_rows 0 ?f" by (rule unit_rows_ones) simp
  have n: "normalize_row float32_kernels [1] = [1]"
    by (simp add: float32_kernels_def float32_normalize_rows)
  have "unit_row 0 (normalize_row float32_kernels r)" if "r \<in> set (rows (randn unit_draws k 1))" for r k
  proof -
    have "r = [1]" using that by (auto simp: randn_def unit_draws_def)
    then show ?thesis by (simp add: n unit_row_def l2norm_def)
  qed
  then have 2: "unit_rows 0 (queue_vector ?s)"
    by (auto simp: soft_teacher_init_def normalize_def unit_rows_def list_all_iff)
  have r: "float32_of_nat (size0 ?f) = Suc (size0 ?f)"
    unfolding size0_column_replicate using f32_a by simp
  have w: "size1 (column xs) = 1" for xs by (simp add: column_def)
  have "\<not> unit_rows (1 / 2) (queue_vector (snd (dequeue_and_enqueue [] [] ?f ?s)))"
    using r
    by (rule padding_row_enqueued)
      (simp_all add: soft_teacher_init_shape size0_column_replicate w)
  then show ?thesis using 1 2 by simp
qed

subsection \<open>C9: the relative transform\<close>

lemma matmul_assoc: "exact_matmul (exact_matmul x y) z = exact_matmul x (exact_matmul y z)"
  by (cases x; cases y; cases z) (simp add: algebra_simps)

lemma matmul_identity [simp]: "exact_matmul identity3 x = x" "exact_matmul x identity3 = x"
  by (cases x; simp add: identity3_def)+

lemma matmul_scale: "exact_matmul (scale3 k x) y = scale3 k (exact_matmul x y)"
  "exact_matmul x (scale3 k y) = scale3 k (exact_matmul x y)"
  by (cases x; cases y; simp add: algebra_simps)+

lemma adjugate_left: "exact_matmul (adjugate3 x) x = scale3 (det3 x) identity3"
  by (cases x) (simp add: identity3_def algebra_simps)

lemma adjugate_right: "exact_matmul x (adjugate3 x) = scale3 (det3 x) identity3"
  by (cases x) (simp add: identity3_def algebra_simps)

lemma scale3_scale3: "scale3 k (scale3 l x) = scale3 (k * l) x"
  by (cases x) simp

lemma scale3_one: "scale3 1 x = x"
  by (cases x) simp

lemma inverse3_cancel:
  assumes "exact_inverse3 x = Some xi"
  shows "exact_matmul xi x = identity3" "exact_matmul x xi = identity3"
proof -
  have d: "det3 x \<noteq> 0" and xi: "xi = scale3 (1 / det3 x) (adjugate3 x)"
    using assms by (auto simp: exact_inverse3_def split: if_splits)
  show "exact_matmul xi x = identity3"
    unfolding xi using d by (simp add: matmul_scale adjugate_left scale3_scale3 scale3_one)
  show "exact_matmul x xi = identity3"
    unfolding xi using d by (simp add: matmul_scale adjugate_right scale3_scale3 scale3_one)
qed

lemma get_trans_mat_Inr:
  "get_trans_mat kn a b = Inr ms \<Longrightarrow>
   length ms = min (length a) (length b)
   \<and> (\<forall>i<length ms. \<exists>ai. inverse3 kn (a ! i) = Inr ai \<and> ms ! i = matmul kn (b ! i) ai)"
proof (induction a arbitrary: b ms)
  case Nil
  then show ?case by simp
next
  case (Cons x a)
  show ?case
  proof (cases b)
    case Nil
    then show ?thesis using Cons.prems by simp
  next
    case (Cons y b')
    obtain xi ms' where p: "inverse3 kn x = Inr xi" "get_trans_mat kn a b' = Inr ms'"
        "ms = matmul kn y xi # ms'"
      using Cons.prems Cons by (auto split: sum.splits)
    note ih = Cons.IH [OF p(2)]
    have "\<exists>ai. inverse3 kn ((x # a) ! i) = Inr ai \<and> ms ! i = matmul kn (b ! i) ai"
      if "i < length ms" for i
    proof (cases i)
      case 0
      then show ?thesis using p Cons by simp
    next
      case (Suc i')
      then have "i' < length ms'" using that p(3) by simp
      then show ?thesis using ih Suc p(3) Cons by simp
    qed
    then show ?thesis using ih p(3) Cons by simp
  qed
qed

lemma get_trans_mat_Inl:
  "get_trans_mat kn a b = Inl e \<Longrightarrow>
   \<exists>i<min (length a) (length b). inverse3 kn (a ! i) = Inl e"
proof (induction a arbitrary: b)
  case Nil
  then show ?case by simp
next
  case (Cons x a)
  show ?case
  proof (cases b)
    case Nil
    then show ?thesis using Cons.prems by simp
  next
    case b: (Cons y b')
    show ?thesis
    proof (cases "inverse3 kn x")
      case (Inl e')
      then have "e' = e" using Cons.prems b by simp
      then have "inverse3 kn ((x # a) ! 0) = Inl e" using Inl by simp
      then show ?thesis using b by (intro exI [of _ 0]) simp
    next
      case (Inr xi)
      then have "get_trans_mat kn a b' = Inl e"
        using Cons.prems b by (simp split: sum.splits)
      from Cons.IH [OF this] obtain i where
        i: "i < min (length a) (length b')" "inverse3 kn (a ! i) = Inl e"
        by blast
      then show ?thesis using b by (intro exI [of _ "Suc i"]) simp
    qed
  qed
qed

text \<open>
  Claim C9, as amended. \<^verbatim>\<open>_get_trans_mat(a, b)\<close> raises exactly what the inverse of some
  \<open>a[i]\<close> raises; when it returns, it returns for every image \<open>i\<close> (of the shorter list) the
  float32 product of \<open>b[i]\<close> with the float32 inverse of \<open>a[i]\<close>, as the kernels compute them,
  and it returns whenever the kernel inverts every \<open>a[i]\<close>. Where the kernels commit no
  rounding error on the relative transforms between \<open>a[i]\<close> and \<open>b[i]\<close>, entry \<open>i\<close> takes the
  frame of \<open>a[i]\<close> to the frame of \<open>b[i]\<close> and its product with entry \<open>i\<close> of
  \<^verbatim>\<open>_get_trans_mat(b, a)\<close> is the identity.
\<close>

theorem get_trans_mat_relative:
  "(get_trans_mat kn a b = Inl e \<longrightarrow>
       (\<exists>i<min (length a) (length b). inverse3 kn (a ! i) = Inl e))
   \<and> (get_trans_mat kn a b = Inr ms \<longrightarrow>
         length ms = min (length a) (length b)
       \<and> (\<forall>i<length ms. \<exists>ai. inverse3 kn (a ! i) = Inr ai \<and> ms ! i = matmul kn (b ! i) ai))
   \<and> ((\<forall>i<min (length a) (length b). \<exists>ai. inverse3 kn (a ! i) = Inr ai) \<longrightarrow>
         (\<exists>ms'. get_trans_mat kn a b = Inr ms'))
   \<and> (get_trans_mat kn a b = Inr ms \<and> get_trans_mat kn b a = Inr ns
        \<and> i < min (length a) (length b) \<and> rounding_free kn (a ! i) (b ! i) \<longrightarrow>
         exact_matmul (ms ! i) (a ! i) = b ! i
       \<and> matmul kn (ms ! i) (ns ! i) = identity3)"
proof (intro conjI impI)
  assume "get_trans_mat kn a b = Inl e"
  then show "\<exists>i<min (length a) (length b). inverse3 kn (a ! i) = Inl e"
    by (rule get_trans_mat_Inl)
next
  assume "get_trans_mat kn a b = Inr ms"
  then show "length ms = min (length a) (length b)"
    and "\<forall>i<length ms. \<exists>ai. inverse3 kn (a ! i) = Inr ai \<and> ms ! i = matmul kn (b ! i) ai"
    using get_trans_mat_Inr by blast+
next
  assume all: "\<forall>i<min (length a) (length b). \<exists>ai. inverse3 kn (a ! i) = Inr ai"
  show "\<exists>ms'. get_trans_mat kn a b = Inr ms'"
  proof (cases "get_trans_mat kn a b")
    case (Inl e')
    from get_trans_mat_Inl [OF this] all show ?thesis by force
  next
    case (Inr ms')
    then show ?thesis by blast
  qed
next
  assume h: "get_trans_mat kn a b = Inr ms \<and> get_trans_mat kn b a = Inr ns
        \<and> i < min (length a) (length b) \<and> rounding_free kn (a ! i) (b ! i)"
  then obtain ai bi where e: "exact_inverse3 (a ! i) = Some ai" "exact_inverse3 (b ! i) = Some bi"
    and r: "inverse3 kn (a ! i) = Inr ai" "inverse3 kn (b ! i) = Inr bi"
      "matmul kn (b ! i) ai = exact_matmul (b ! i) ai"
      "matmul kn (a ! i) bi = exact_matmul (a ! i) bi"
      "matmul kn (exact_matmul (b ! i) ai) (exact_matmul (a ! i) bi)
         = exact_matmul (exact_matmul (b ! i) ai) (exact_matmul (a ! i) bi)"
    by (auto simp: rounding_free_def split: option.splits)
  have lm: "length ms = min (length a) (length b)" and ln: "length ns = min (length b) (length a)"
    using h get_trans_mat_Inr by blast+
  have "\<exists>x. inverse3 kn (a ! i) = Inr x \<and> ms ! i = matmul kn (b ! i) x"
    using h lm get_trans_mat_Inr [of kn a b ms] by simp
  then have m: "ms ! i = exact_matmul (b ! i) ai" using r(1,3) by auto
  have "\<exists>x. inverse3 kn (b ! i) = Inr x \<and> ns ! i = matmul kn (a ! i) x"
    using h ln get_trans_mat_Inr [of kn b a ns] by simp
  then have n: "ns ! i = exact_matmul (a ! i) bi" using r(2,4) by auto
  note ca = inverse3_cancel [OF e(1)] and cb = inverse3_cancel [OF e(2)]
  show "exact_matmul (ms ! i) (a ! i) = b ! i"
    unfolding m by (simp add: matmul_assoc ca)
  have "exact_matmul (exact_matmul (b ! i) ai) (exact_matmul (a ! i) bi)
      = exact_matmul (b ! i) (exact_matmul (exact_matmul ai (a ! i)) bi)"
    by (simp only: matmul_assoc)
  also have "\<dots> = identity3" by (simp add: ca cb)
  finally show "matmul kn (ms ! i) (ns ! i) = identity3"
    unfolding m n r(5) .
qed

lemma float32_kernels_simps:
  "matmul float32_kernels = float32_matmul" "inverse3 float32_kernels = float32_diag_inverse"
  by (simp_all add: float32_kernels_def)

theorem get_trans_mat_relative_witness:
  "get_trans_mat float32_kernels [Mat3 2 0 0  0 1 0  0 0 1] [Mat3 4 0 0  0 1 0  0 0 1]
     = Inr [Mat3 2 0 0  0 1 0  0 0 1]
   \<and> get_trans_mat float32_kernels [Mat3 4 0 0  0 1 0  0 0 1] [Mat3 2 0 0  0 1 0  0 0 1]
     = Inr [Mat3 (1 / 2) 0 0  0 1 0  0 0 1]
   \<and> exact_matmul (Mat3 2 0 0  0 1 0  0 0 1) (Mat3 2 0 0  0 1 0  0 0 1) = Mat3 4 0 0  0 1 0  0 0 1
   \<and> matmul float32_kernels (Mat3 2 0 0  0 1 0  0 0 1) (Mat3 (1 / 2) 0 0  0 1 0  0 0 1) = identity3"
proof -
  let ?a = "[Mat3 2 0 0  0 1 0  0 0 1]" and ?b = "[Mat3 4 0 0  0 1 0  0 0 1]"
  have ab: "get_trans_mat float32_kernels ?a ?b = Inr [Mat3 2 0 0  0 1 0  0 0 1]"
    and ba: "get_trans_mat float32_kernels ?b ?a = Inr [Mat3 (1 / 2) 0 0  0 1 0  0 0 1]"
    by (simp_all add: float32_kernels_simps dot3_def fl32_zero fl32_values)
  have rf: "rounding_free float32_kernels (?a ! 0) (?b ! 0)"
    by (simp add: rounding_free_def exact_inverse3_def float32_kernels_simps dot3_def
        fl32_zero fl32_values)
  have "get_trans_mat float32_kernels ?a ?b = Inr [Mat3 2 0 0  0 1 0  0 0 1]
      \<and> get_trans_mat float32_kernels ?b ?a = Inr [Mat3 (1 / 2) 0 0  0 1 0  0 0 1]
      \<and> 0 < min (length ?a) (length ?b) \<and> rounding_free float32_kernels (?a ! 0) (?b ! 0)"
    using ab ba rf by simp
  then have "exact_matmul ([Mat3 2 0 0  0 1 0  0 0 1] ! 0) (?a ! 0) = ?b ! 0
       \<and> matmul float32_kernels ([Mat3 2 0 0  0 1 0  0 0 1] ! 0) ([Mat3 (1 / 2) 0 0  0 1 0  0 0 1] ! 0) = identity3"
    using get_trans_mat_relative [of float32_kernels ?a ?b RuntimeError "[Mat3 2 0 0  0 1 0  0 0 1]"
        "[Mat3 (1 / 2) 0 0  0 1 0  0 0 1]" 0]
    by blast
  then show ?thesis using ab ba by simp
qed

text \<open>
  Claim C9 as stated, with the identity for all invertible matrices, fails in float32.
  For \<open>a = [diag(3, 1, 1)]\<close> and \<open>b = [diag(7, 1, 1)]\<close> the two relative transforms are
  \<open>diag(7 * fl(1/3), 1, 1)\<close> and \<open>diag(3 * fl(1/7), 1, 1)\<close>, rounded; their product has
  \<open>1 + 2 ^ -23\<close> in its first entry, and the first of them takes \<open>a[0]\<close> to a matrix
  other than \<open>b[0]\<close>.
\<close>

theorem float32_transform_counterexample:
  "get_trans_mat float32_kernels [Mat3 3 0 0  0 1 0  0 0 1] [Mat3 7 0 0  0 1 0  0 0 1]
     = Inr [Mat3 (4893355 / 2097152) 0 0  0 1 0  0 0 1]
   \<and> get_trans_mat float32_kernels [Mat3 7 0 0  0 1 0  0 0 1] [Mat3 3 0 0  0 1 0  0 0 1]
     = Inr [Mat3 (1797559 / 4194304) 0 0  0 1 0  0 0 1]
   \<and> matmul float32_kernels (Mat3 (4893355 / 2097152) 0 0  0 1 0  0 0 1)
        (Mat3 (1797559 / 4194304) 0 0  0 1 0  0 0 1)
     = Mat3 (8388609 / 8388608) 0 0  0 1 0  0 0 1
   \<and> Mat3 (8388609 / 8388608) 0 0  0 1 0  0 0 1 \<noteq> identity3
   \<and> exact_matmul (Mat3 (4893355 / 2097152) 0 0  0 1 0  0 0 1) (Mat3 3 0 0  0 1 0  0 0 1)
       \<noteq> Mat3 7 0 0  0 1 0  0 0 1"
  by (simp add: float32_kernels_simps dot3_def fl32_zero fl32_values fl32_fractions fl32_products
      identity3_def)

subsection \<open>Running a step over a list\<close>

lemma map_result_Inl:
  "map_result f xs = Inl e \<Longrightarrow> \<exists>x \<in> set xs. f x = Inl e"
  by (induction xs arbitrary: e) (auto split: sum.splits)

lemma map_result_Inr:
  "map_result f xs = Inr ys \<Longrightarrow> length ys = length xs \<and> (\<forall>i<length xs. f (xs ! i) = Inr (ys ! i))"
proof (induction xs arbitrary: ys)
  case Nil
  then show ?case by simp
next
  case (Cons x xs)
  then show ?case
    by (auto split: sum.splits simp: nth_Cons split: nat.splits)
qed

lemma map_result_total:
  "\<forall>x \<in> set xs. f x = Inr (g x) \<Longrightarrow> map_result f xs = Inr (map g xs)"
  by (induction xs) simp_all

subsection \<open>C8: the initial score threshold\<close>

text \<open>
  Claim C8. \<^verbatim>\<open>extract_teacher_info\<close> raises \<^verbatim>\<open>NotImplementedError\<close> exactly when the configured
  \<^verbatim>\<open>pseudo_label_initial_score_thr\<close> is not a float. When it is the float \<open>thr\<close> and the call
  returns, the detections it returns are those of \<^verbatim>\<open>filter_invalid\<close> called with \<open>thr\<close> for
  every image, whatever the labels of its boxes.
\<close>

theorem extract_teacher_info_threshold:
  "(extract_teacher_info env imgs metas props = Inl NotImplementedError
      \<longleftrightarrow> (\<forall>thr. pseudo_label_initial_score_thr env \<noteq> PyFloat thr))
   \<and> (\<forall>thr info.
         pseudo_label_initial_score_thr env = PyFloat thr
         \<and> extract_teacher_info env imgs metas props = Inr info \<longrightarrow>
         (let feat = extract_feat (teacher env) imgs;
              proposal_list0 =
                (case props of
                   None \<Rightarrow> get_bboxes (teacher env) (rpn_head (teacher env) feat) metas
                 | Some ps \<Rightarrow> ps);
              (dets, det_label_list) = simple_test_bboxes (teacher env) feat metas proposal_list0;
              candidates = zip (map (\<lambda>p. if size0 p > 0 then p else zeros 0 5) dets) det_label_list;
              kept = map (\<lambda>(p, l). filter_invalid env p l (map last (rows p)) thr
                                     (min_pseduo_box_size env)) candidates
          in det_bboxes info = map fst kept \<and> det_labels info = map snd kept))"
proof (intro conjI allI impI)
  show "extract_teacher_info env imgs metas props = Inl NotImplementedError
      \<longleftrightarrow> (\<forall>thr. pseudo_label_initial_score_thr env \<noteq> PyFloat thr)"
  proof (cases "pseudo_label_initial_score_thr env")
    case (PyFloat thr)
    have no: "map_result
                (\<lambda>(proposal, proposal_label).
                   case last_column proposal of
                     Inl e \<Rightarrow> Inl e
                   | Inr score \<Rightarrow>
                       Inr (filter_invalid env proposal proposal_label score thr
                              (min_pseduo_box_size env))) xs \<noteq> Inl NotImplementedError" for xs
    proof
      assume "map_result
                (\<lambda>(proposal, proposal_label).
                   case last_column proposal of
                     Inl e \<Rightarrow> Inl e
                   | Inr score \<Rightarrow>
                       Inr (filter_invalid env proposal proposal_label score thr
                              (min_pseduo_box_size env))) xs = Inl NotImplementedError"
      from map_result_Inl [OF this] show False
        by (auto simp: last_column_def split: sum.splits if_splits)
    qed
    show ?thesis
      using PyFloat no
      by (auto simp: extract_teacher_info_def initial_score_thr_def Let_def
          split: prod.splits sum.splits if_splits)
  qed (simp_all add: extract_teacher_info_def initial_score_thr_def Let_def split: prod.splits)
next
  fix thr info
  assume a: "pseudo_label_initial_score_thr env = PyFloat thr
         \<and> extract_teacher_info env imgs metas props = Inr info"
  show "let feat = extract_feat (teacher env) imgs;
              proposal_list0 =
                (case props of
                   None \<Rightarrow> get_bboxes (teacher env) (rpn_head (teacher env) feat) metas
                 | Some ps \<Rightarrow> ps);
              (dets, det_label_list) = simple_test_bboxes (teacher env) feat metas proposal_list0;
              candidates = zip (map (\<lambda>p. if size0 p > 0 then p else zeros 0 5) dets) det_label_list;
              kept = map (\<lambda>(p, l). filter_invalid env p l (map last (rows p)) thr
                                     (min_pseduo_box_size env)) candidates
          in det_bboxes info = map fst kept \<and> det_labels info = map snd kept"
  proof -
    define feat where "feat = extract_feat (teacher env) imgs"
    define proposal_list0 where "proposal_list0 =
                (case props of
                   None \<Rightarrow> get_bboxes (teacher env) (rpn_head (teacher env) feat) metas
                 | Some ps \<Rightarrow> ps)"
    obtain dets det_label_list where
      st: "simple_test_bboxes (teacher env) feat metas proposal_list0 = (dets, det_label_list)"
      by (cases "simple_test_bboxes (teacher env) feat metas proposal_list0") auto
    define candidates where
      "candidates = zip (map (\<lambda>p. if size0 p > 0 then p else zeros 0 5) dets) det_label_list"
    let ?f = "\<lambda>(proposal, proposal_label).
                   case last_column proposal of
                     Inl e \<Rightarrow> Inl e
                   | Inr score \<Rightarrow>
                       Inr (filter_invalid env proposal proposal_label score thr
                              (min_pseduo_box_size env))"
    let ?g = "\<lambda>(p, l). filter_invalid env p l (map last (rows p)) thr (min_pseduo_box_size env)"
    from a obtain filtered where
      f: "map_result ?f candidates = Inr filtered"
      and i: "det_bboxes info = map fst filtered" "det_labels info = map snd filtered"
      using st
      by (auto simp: extract_teacher_info_def initial_score_thr_def Let_def feat_def [symmetric]
          proposal_list0_def [symmetric] candidates_def [symmetric]
          split: sum.splits if_splits)
    have "filtered = map ?g candidates"
    proof (rule nth_equalityI)
      show "length filtered = length (map ?g candidates)"
        using map_result_Inr [OF f] by simp
      fix j assume "j < length filtered"
      then have j: "j < length candidates" using map_result_Inr [OF f] by simp
      then have "?f (candidates ! j) = Inr (filtered ! j)"
        using map_result_Inr [OF f] by blast
      then have "filtered ! j = ?g (candidates ! j)"
        by (auto simp: last_column_def split: prod.splits sum.splits if_splits)
      then show "filtered ! j = map ?g candidates ! j" using j by simp
    qed
    then show ?thesis
      using i st
      by (simp add: Let_def feat_def [symmetric] proposal_list0_def [symmetric]
          candidates_def [symmetric])
  qed
qed

theorem extract_teacher_info_threshold_witness:
  "extract_teacher_info (toy_env (PyInt 1)) [3, 7] [toy_meta ''a'', toy_meta ''b''] None
     = Inl NotImplementedError
   \<and> map_sum id (\<lambda>info. map rows (det_bboxes info))
        (extract_teacher_info (toy_env (PyFloat (1 / 2))) [3, 7] [toy_meta ''a'', toy_meta ''b''] None)
     = Inr [[], [[0, 0, 8, 8, 7 / 10]]]"
proof -
  let ?ms = "[toy_meta ''a'', toy_meta ''b'']"
  have 1: "extract_teacher_info (toy_env (PyInt 1)) [3, 7] ?ms None = Inl NotImplementedError"
    using extract_teacher_info_threshold [of "toy_env (PyInt 1)" "[3, 7]" ?ms None]
    by (simp add: toy_env_def)
  obtain info where
    2: "extract_teacher_info (toy_env (PyFloat (1 / 2))) [3, 7] ?ms None = Inr info"
    by (simp add: extract_teacher_info_def toy_env_def toy_detector_def keep_scored_def
        initial_score_thr_def last_column_def Let_def zeros_def size0_def)
  have "pseudo_label_initial_score_thr (toy_env (PyFloat (1 / 2))) = PyFloat (1 / 2)"
    by (simp add: toy_env_def)
  with 2 extract_teacher_info_threshold [of "toy_env (PyFloat (1 / 2))" "[3, 7]" ?ms None]
  have "map rows (det_bboxes info) = [[], [[0, 0, 8, 8, 7 / 10]]]"
    by (simp add: toy_env_def toy_detector_def keep_scored_def Let_def zeros_def size0_def)
  then show ?thesis using 1 2 by simp
qed

subsection \<open>C7: subsampling the boxes of an image\<close>

lemma randint_ok:
  assumes "0 \<le> n" "0 < high"
  shows "\<exists>idx. randint src high n s = (Inr idx, s\<lparr>rand_pos := rand_pos s + nat n\<rparr>)
           \<and> int (length idx) = n \<and> (\<forall>j \<in> set idx. j < high)"
  using assms by (auto simp: randint_def)

lemma ctr2_subsample_spec:
  assumes "distinct is"
    and "\<forall>i \<in> set is. i < length (box_lists s b_ref) \<and> i < length (label_lists s l_ref)
            \<and> size0 (box_lists s b_ref ! i) = length (label_lists s l_ref ! i)
            \<and> label_lists s l_ref ! i \<noteq> []"
    and "0 \<le> ctr2_num s"
  shows "\<exists>s'. ctr2_subsample src b_ref l_ref is s = (None, s')
     \<and> s' = s\<lparr>rand_pos := rand_pos s', box_lists := box_lists s', label_lists := label_lists s'\<rparr>
     \<and> (\<forall>r. r \<noteq> b_ref \<longrightarrow> box_lists s' r = box_lists s r)
     \<and> (\<forall>r. r \<noteq> l_ref \<longrightarrow> label_lists s' r = label_lists s r)
     \<and> length (box_lists s' b_ref) = length (box_lists s b_ref)
     \<and> length (label_lists s' l_ref) = length (label_lists s l_ref)
     \<and> (\<forall>i. i \<notin> set is \<longrightarrow> box_lists s' b_ref ! i = box_lists s b_ref ! i
                          \<and> label_lists s' l_ref ! i = label_lists s l_ref ! i)
     \<and> (\<forall>i \<in> set is. subsampled (ctr2_num s) (box_lists s b_ref ! i) (label_lists s l_ref ! i)
                          (box_lists s' b_ref ! i) (label_lists s' l_ref ! i))"
  using assms
proof (induction "is" arbitrary: s)
  case Nil
  show ?case by simp
next
  case (Cons i rest)
  let ?B = "box_lists s b_ref" and ?L = "label_lists s l_ref"
  let ?b = "?B ! i" and ?l = "?L ! i"
  have i: "i < length ?B" "i < length ?L" "size0 ?b = length ?l" "?l \<noteq> []"
    using Cons.prems(2) by simp_all
  have nth: "py_nth ?B i = Inr ?b" "py_nth ?L i = Inr ?l"
    using i by (simp_all add: py_nth_def)
  have irest: "i \<notin> set rest" "distinct rest" using Cons.prems(1) by simp_all
  show ?case
  proof (cases "int (size0 ?b) > ctr2_num s")
    case False
    have step: "ctr2_subsample src b_ref l_ref (i # rest) s = ctr2_subsample src b_ref l_ref rest s"
      using nth i False by simp
    have "\<forall>j \<in> set rest. j < length ?B \<and> j < length ?L
            \<and> size0 (?B ! j) = length (?L ! j) \<and> ?L ! j \<noteq> []"
      using Cons.prems(2) by simp
    from Cons.IH [OF irest(2) this Cons.prems(3)] obtain s' where
      s': "ctr2_subsample src b_ref l_ref rest s = (None, s')"
        "s' = s\<lparr>rand_pos := rand_pos s', box_lists := box_lists s', label_lists := label_lists s'\<rparr>"
        "\<forall>r. r \<noteq> b_ref \<longrightarrow> box_lists s' r = box_lists s r"
        "\<forall>r. r \<noteq> l_ref \<longrightarrow> label_lists s' r = label_lists s r"
        "length (box_lists s' b_ref) = length ?B"
        "length (label_lists s' l_ref) = length ?L"
        "\<forall>j. j \<notin> set rest \<longrightarrow> box_lists s' b_ref ! j = ?B ! j \<and> label_lists s' l_ref ! j = ?L ! j"
        "\<forall>j \<in> set rest. subsampled (ctr2_num s) (?B ! j) (?L ! j)
                          (box_lists s' b_ref ! j) (label_lists s' l_ref ! j)"
      by blast
    have "subsampled (ctr2_num s) ?b ?l (box_lists s' b_ref ! i) (label_lists s' l_ref ! i)"
      using s'(7) irest(1) False by (simp add: subsampled_def)
    then show ?thesis
      unfolding step using s' by (intro exI [of _ s']) auto
  next
    case True
    have "0 < size0 ?b" using i by simp
    from randint_ok [OF Cons.prems(3) this, of src s] obtain idx where
      r: "randint src (size0 ?b) (ctr2_num s) s = (Inr idx, s\<lparr>rand_pos := rand_pos s + nat (ctr2_num s)\<rparr>)"
        "int (length idx) = ctr2_num s" "\<forall>j \<in> set idx. j < size0 ?b"
      by blast
    let ?s1 = "s\<lparr>rand_pos := rand_pos s + nat (ctr2_num s)\<rparr>"
    let ?s2 = "?s1\<lparr>box_lists := (box_lists ?s1)(b_ref := (box_lists ?s1 b_ref)[i := index_rows ?b idx]),
                  label_lists := (label_lists ?s1)(l_ref := (label_lists ?s1 l_ref)[i := index_list ?l idx])\<rparr>"
    have step: "ctr2_subsample src b_ref l_ref (i # rest) s = ctr2_subsample src b_ref l_ref rest ?s2"
      using nth i True r(1) by simp
    have B2: "box_lists ?s2 b_ref = ?B[i := index_rows ?b idx]"
      and L2: "label_lists ?s2 l_ref = ?L[i := index_list ?l idx]"
      by simp_all
    have pre: "\<forall>j \<in> set rest. j < length (box_lists ?s2 b_ref) \<and> j < length (label_lists ?s2 l_ref)
            \<and> size0 (box_lists ?s2 b_ref ! j) = length (label_lists ?s2 l_ref ! j)
            \<and> label_lists ?s2 l_ref ! j \<noteq> []"
      unfolding B2 L2 using Cons.prems(2) irest(1) by (auto simp: nth_list_update)
    have c2: "0 \<le> ctr2_num ?s2" "ctr2_num ?s2 = ctr2_num s" using Cons.prems(3) by simp_all
    from Cons.IH [OF irest(2) pre c2(1)] obtain s' where
      s': "ctr2_subsample src b_ref l_ref rest ?s2 = (None, s')"
        "s' = ?s2\<lparr>rand_pos := rand_pos s', box_lists := box_lists s', label_lists := label_lists s'\<rparr>"
        "\<forall>r. r \<noteq> b_ref \<longrightarrow> box_lists s' r = box_lists ?s2 r"
        "\<forall>r. r \<noteq> l_ref \<longrightarrow> label_lists s' r = label_lists ?s2 r"
        "length (box_lists s' b_ref) = length (box_lists ?s2 b_ref)"
        "length (label_lists s' l_ref) = length (label_lists ?s2 l_ref)"
        "\<forall>j. j \<notin> set rest \<longrightarrow> box_lists s' b_ref ! j = box_lists ?s2 b_ref ! j
                              \<and> label_lists s' l_ref ! j = label_lists ?s2 l_ref ! j"
        "\<forall>j \<in> set rest. subsampled (ctr2_num ?s2) (box_lists ?s2 b_ref ! j) (label_lists ?s2 l_ref ! j)
                          (box_lists s' b_ref ! j) (label_lists s' l_ref ! j)"
      by blast
    have frame: "s' = s\<lparr>rand_pos := rand_pos s', box_lists := box_lists s', label_lists := label_lists s'\<rparr>"
      by (subst s'(2)) simp
    have head: "subsampled (ctr2_num s) ?b ?l (box_lists s' b_ref ! i) (label_lists s' l_ref ! i)"
    proof -
      have "box_lists s' b_ref ! i = index_rows ?b idx" "label_lists s' l_ref ! i = index_list ?l idx"
        using s'(7) irest(1) i unfolding B2 L2 by simp_all
      then show ?thesis using True r(2,3) by (auto simp: subsampled_def)
    qed
    have tail: "\<forall>j \<in> set rest. subsampled (ctr2_num s) (?B ! j) (?L ! j)
                          (box_lists s' b_ref ! j) (label_lists s' l_ref ! j)"
    proof
      fix j assume j: "j \<in> set rest"
      then have "j \<noteq> i" using irest(1) by blast
      then have "?B[i := index_rows ?b idx] ! j = ?B ! j" "?L[i := index_list ?l idx] ! j = ?L ! j"
        by simp_all
      then show "subsampled (ctr2_num s) (?B ! j) (?L ! j)
                          (box_lists s' b_ref ! j) (label_lists s' l_ref ! j)"
        using s'(8) j unfolding B2 L2 c2(2) by fastforce
    qed
    have other: "\<forall>j. j \<notin> set (i # rest) \<longrightarrow> box_lists s' b_ref ! j = ?B ! j
                                        \<and> label_lists s' l_ref ! j = ?L ! j"
      using s'(7) unfolding B2 L2 by (auto simp: nth_list_update)
    have refs: "\<forall>r. r \<noteq> b_ref \<longrightarrow> box_lists s' r = box_lists s r"
        "\<forall>r. r \<noteq> l_ref \<longrightarrow> label_lists s' r = label_lists s r"
      using s'(3,4) by simp_all
    have lens: "length (box_lists s' b_ref) = length ?B" "length (label_lists s' l_ref) = length ?L"
      using s'(5,6) unfolding B2 L2 by simp_all
    show ?thesis
      unfolding step
      using s'(1) frame refs lens other head tail by (intro exI [of _ s']) simp
  qed
qed

lemma randint_draws:
  "0 \<le> n \<Longrightarrow> 0 < high \<Longrightarrow>
   randint src high n s = (Inr (draws src (rand_pos s) high n), s\<lparr>rand_pos := rand_pos s + nat n\<rparr>)"
  by (simp add: randint_def draws_def)

lemma draws_range: "0 < high \<Longrightarrow> \<forall>j \<in> set (draws src p high n). j < high"
  by (simp add: draws_def)

lemma length_draws: "0 \<le> n \<Longrightarrow> int (length (draws src p high n)) = n"
  by (simp add: draws_def)

lemma draws_any:
  assumes "\<forall>j \<in> set idx. j < high" "int (length idx) = n"
  shows "draws (\<lambda>k. idx ! (k - p)) p high n = idx"
proof -
  have n: "nat n = length idx" using assms(2) by simp
  have "map (\<lambda>j. idx ! (p + j - p) mod high) [0..<length idx] = map ((!) idx) [0..<length idx]"
    using assms(1) by (intro map_cong) auto
  then show ?thesis unfolding draws_def n by (simp add: map_nth)
qed

lemma ctr2_subsample_draws:
  assumes "distinct is"
    and "\<forall>i \<in> set is. i < length (box_lists s b_ref) \<and> i < length (label_lists s l_ref)
            \<and> size0 (box_lists s b_ref ! i) = length (label_lists s l_ref ! i)
            \<and> label_lists s l_ref ! i \<noteq> []"
    and "0 \<le> ctr2_num s"
    and "ctr2_subsample src b_ref l_ref is s = (r, s')"
  shows "\<forall>k<length is. drawn_at src
            (rand_pos s + nat (ctr2_num s) *
               length (filter (\<lambda>j. ctr2_num s < int (size0 (box_lists s b_ref ! j))) (take k is)))
            (ctr2_num s) (box_lists s b_ref ! (is ! k)) (label_lists s l_ref ! (is ! k))
            (box_lists s' b_ref ! (is ! k)) (label_lists s' l_ref ! (is ! k))"
  using assms
proof (induction "is" arbitrary: s)
  case Nil
  show ?case by simp
next
  case (Cons i rest)
  let ?B = "box_lists s b_ref" and ?L = "label_lists s l_ref"
  let ?b = "?B ! i" and ?l = "?L ! i"
  let ?n2 = "ctr2_num s"
  have i: "i < length ?B" "i < length ?L" "size0 ?b = length ?l" "?l \<noteq> []"
    using Cons.prems(2) by simp_all
  have nth: "py_nth ?B i = Inr ?b" "py_nth ?L i = Inr ?l"
    using i by (simp_all add: py_nth_def)
  have irest: "i \<notin> set rest" "distinct rest" using Cons.prems(1) by simp_all
  show ?case
  proof (cases "int (size0 ?b) > ?n2")
    case False
    have step: "ctr2_subsample src b_ref l_ref rest s = (r, s')"
      using nth i False Cons.prems(4) by simp
    have pre: "\<forall>j \<in> set rest. j < length ?B \<and> j < length ?L
            \<and> size0 (?B ! j) = length (?L ! j) \<and> ?L ! j \<noteq> []"
      using Cons.prems(2) by simp
    note ih = Cons.IH [OF irest(2) pre Cons.prems(3) step]
    have keep: "box_lists s' b_ref ! i = ?b" "label_lists s' l_ref ! i = ?l"
      using ctr2_subsample_spec [OF irest(2) pre Cons.prems(3), of src] step irest(1) by auto
    show ?thesis
    proof (intro allI impI)
      fix k assume k: "k < length (i # rest)"
      show "drawn_at src
            (rand_pos s + nat ?n2 *
               length (filter (\<lambda>j. ?n2 < int (size0 (?B ! j))) (take k (i # rest))))
            ?n2 (?B ! ((i # rest) ! k)) (?L ! ((i # rest) ! k))
            (box_lists s' b_ref ! ((i # rest) ! k)) (label_lists s' l_ref ! ((i # rest) ! k))"
      proof (cases k)
        case 0
        then show ?thesis using False keep by (simp add: drawn_at_def)
      next
        case (Suc k')
        then have "k' < length rest" using k by simp
        then show ?thesis using ih False Suc by simp
      qed
    qed
  next
    case True
    have pos: "0 < size0 ?b" using i by simp
    let ?idx = "draws src (rand_pos s) (size0 ?b) ?n2"
    let ?s1 = "s\<lparr>rand_pos := rand_pos s + nat ?n2\<rparr>"
    let ?s2 = "?s1\<lparr>box_lists := (box_lists ?s1)(b_ref := (box_lists ?s1 b_ref)[i := index_rows ?b ?idx]),
                  label_lists := (label_lists ?s1)(l_ref := (label_lists ?s1 l_ref)[i := index_list ?l ?idx])\<rparr>"
    have step: "ctr2_subsample src b_ref l_ref rest ?s2 = (r, s')"
      using nth i True randint_draws [OF Cons.prems(3) pos, of src s] Cons.prems(4) by simp
    have B2: "box_lists ?s2 b_ref = ?B[i := index_rows ?b ?idx]"
      and L2: "label_lists ?s2 l_ref = ?L[i := index_list ?l ?idx]"
      by simp_all
    have same: "box_lists ?s2 b_ref ! j = ?B ! j" "label_lists ?s2 l_ref ! j = ?L ! j" if "j \<in> set rest" for j
    proof -
      have "j \<noteq> i" using that irest(1) by blast
      then show "box_lists ?s2 b_ref ! j = ?B ! j" "label_lists ?s2 l_ref ! j = ?L ! j"
        unfolding B2 L2 by simp_all
    qed
    have pre: "\<forall>j \<in> set rest. j < length (box_lists ?s2 b_ref) \<and> j < length (label_lists ?s2 l_ref)
            \<and> size0 (box_lists ?s2 b_ref ! j) = length (label_lists ?s2 l_ref ! j)
            \<and> label_lists ?s2 l_ref ! j \<noteq> []"
      unfolding B2 L2 using Cons.prems(2) irest(1) by (auto simp: nth_list_update)
    have c2: "0 \<le> ctr2_num ?s2" using Cons.prems(3) by simp
    note ih = Cons.IH [OF irest(2) pre c2 step]
    have keep: "box_lists s' b_ref ! i = index_rows ?b ?idx" "label_lists s' l_ref ! i = index_list ?l ?idx"
      using ctr2_subsample_spec [OF irest(2) pre c2, of src] step irest(1) i unfolding B2 L2 by auto
    show ?thesis
    proof (intro allI impI)
      fix k assume k: "k < length (i # rest)"
      show "drawn_at src
            (rand_pos s + nat ?n2 *
               length (filter (\<lambda>j. ?n2 < int (size0 (?B ! j))) (take k (i # rest))))
            ?n2 (?B ! ((i # rest) ! k)) (?L ! ((i # rest) ! k))
            (box_lists s' b_ref ! ((i # rest) ! k)) (label_lists s' l_ref ! ((i # rest) ! k))"
      proof (cases k)
        case 0
        then show ?thesis using True keep by (simp add: drawn_at_def)
      next
        case (Suc k')
        then have k': "k' < length rest" using k by simp
        then have m: "rest ! k' \<in> set rest" by simp
        have f: "filter (\<lambda>j. ?n2 < int (size0 (box_lists ?s2 b_ref ! j))) (take k' rest)
               = filter (\<lambda>j. ?n2 < int (size0 (?B ! j))) (take k' rest)"
          by (rule filter_cong [OF refl]) (use same in \<open>auto dest: in_set_takeD\<close>)
        have "drawn_at src
            (rand_pos ?s2 + nat (ctr2_num ?s2) *
               length (filter (\<lambda>j. ctr2_num ?s2 < int (size0 (box_lists ?s2 b_ref ! j))) (take k' rest)))
            (ctr2_num ?s2) (box_lists ?s2 b_ref ! (rest ! k')) (label_lists ?s2 l_ref ! (rest ! k'))
            (box_lists s' b_ref ! (rest ! k')) (label_lists s' l_ref ! (rest ! k'))"
          using ih k' by blast
        then have "drawn_at src
            (rand_pos s + nat ?n2 + nat ?n2 *
               length (filter (\<lambda>j. ?n2 < int (size0 (?B ! j))) (take k' rest)))
            ?n2 (?B ! (rest ! k')) (?L ! (rest ! k'))
            (box_lists s' b_ref ! (rest ! k')) (label_lists s' l_ref ! (rest ! k'))"
          using f same [OF m] by simp
        then show ?thesis using True Suc by (simp add: add.assoc)
      qed
    qed
  qed
qed


lemma ctr2_subsample_drawn:
  assumes "length (box_lists s b_ref) = n" "length (label_lists s l_ref) = n"
    and "\<forall>i<n. size0 (box_lists s b_ref ! i) = length (label_lists s l_ref ! i)
               \<and> label_lists s l_ref ! i \<noteq> []"
    and "0 \<le> ctr2_num s"
  shows "\<exists>s'. ctr2_subsample src b_ref l_ref [0..<n] s = (None, s')
     \<and> length (box_lists s' b_ref) = n \<and> length (label_lists s' l_ref) = n
     \<and> (\<forall>i<n. drawn_at src
            (rand_pos s + nat (ctr2_num s) *
               length (filter (\<lambda>j. ctr2_num s < int (size0 (box_lists s b_ref ! j))) [0..<i]))
            (ctr2_num s) (box_lists s b_ref ! i) (label_lists s l_ref ! i)
            (box_lists s' b_ref ! i) (label_lists s' l_ref ! i))"
proof -
  have d: "distinct [0..<n]" by simp
  have pre: "\<forall>i \<in> set [0..<n]. i < length (box_lists s b_ref) \<and> i < length (label_lists s l_ref)
            \<and> size0 (box_lists s b_ref ! i) = length (label_lists s l_ref ! i)
            \<and> label_lists s l_ref ! i \<noteq> []"
    using assms(1-3) by simp
  obtain s' where
    s': "ctr2_subsample src b_ref l_ref [0..<n] s = (None, s')"
      "length (box_lists s' b_ref) = length (box_lists s b_ref)"
      "length (label_lists s' l_ref) = length (label_lists s l_ref)"
    using ctr2_subsample_spec [OF d pre assms(4), of src] by blast
  have "drawn_at src
            (rand_pos s + nat (ctr2_num s) *
               length (filter (\<lambda>j. ctr2_num s < int (size0 (box_lists s b_ref ! j))) [0..<i]))
            (ctr2_num s) (box_lists s b_ref ! i) (label_lists s l_ref ! i)
            (box_lists s' b_ref ! i) (label_lists s' l_ref ! i)" if "i < n" for i
  proof -
    have t: "take i [0..<n] = [0..<i]" "[0..<n] ! i = i" "i < length [0..<n]"
      using that by (simp_all add: take_upt)
    note x = ctr2_subsample_draws [OF d pre assms(4) s'(1), rule_format, OF t(3)]
    show ?thesis using x by (simp only: t(1) t(2))
  qed
  then show ?thesis using s' assms(1,2) by auto
qed

text \<open>
  Claim C7, as amended. Let every image have as many labels as boxes, at least one, and
  let \<^verbatim>\<open>ctr2_num\<close> not be negative. The loop at the start of \<^verbatim>\<open>ctr_loss_2\<close> raises nothing.
  An image with more than \<^verbatim>\<open>ctr2_num\<close> boxes is left with \<^verbatim>\<open>ctr2_num\<close> rows and labels,
  read from its own boxes and labels at the positions that \<^verbatim>\<open>torch.randint\<close> drew for it,
  which lie below the number of its boxes; an image with at most \<^verbatim>\<open>ctr2_num\<close> boxes keeps
  its boxes and labels. The draws are independent: every list of \<^verbatim>\<open>ctr2_num\<close> positions of
  an image, with or without repetition, is what some source of randomness selects.
\<close>

theorem ctr2_subsample_images:
  assumes "length (box_lists s b_ref) = n" "length (label_lists s l_ref) = n"
    and "\<forall>i<n. size0 (box_lists s b_ref ! i) = length (label_lists s l_ref ! i)
               \<and> label_lists s l_ref ! i \<noteq> []"
    and "0 \<le> ctr2_num s"
  shows "(\<exists>s'. ctr2_subsample src b_ref l_ref [0..<n] s = (None, s')
     \<and> length (box_lists s' b_ref) = n \<and> length (label_lists s' l_ref) = n
     \<and> (\<forall>i<n.
          (ctr2_num s < int (size0 (box_lists s b_ref ! i)) \<longrightarrow>
             int (size0 (box_lists s' b_ref ! i)) = ctr2_num s
           \<and> int (length (label_lists s' l_ref ! i)) = ctr2_num s
           \<and> (\<forall>j \<in> set (drawn_positions src s b_ref i). j < size0 (box_lists s b_ref ! i))
           \<and> box_lists s' b_ref ! i = index_rows (box_lists s b_ref ! i) (drawn_positions src s b_ref i)
           \<and> label_lists s' l_ref ! i = index_list (label_lists s l_ref ! i) (drawn_positions src s b_ref i))
        \<and> (int (size0 (box_lists s b_ref ! i)) \<le> ctr2_num s \<longrightarrow>
             box_lists s' b_ref ! i = box_lists s b_ref ! i
           \<and> label_lists s' l_ref ! i = label_lists s l_ref ! i)))
   \<and> (\<forall>i<n. \<forall>idx.
          ctr2_num s < int (size0 (box_lists s b_ref ! i)) \<and> int (length idx) = ctr2_num s
          \<and> (\<forall>j \<in> set idx. j < size0 (box_lists s b_ref ! i)) \<longrightarrow>
          (\<exists>src' s''. ctr2_subsample src' b_ref l_ref [0..<n] s = (None, s'')
             \<and> box_lists s'' b_ref ! i = index_rows (box_lists s b_ref ! i) idx
             \<and> label_lists s'' l_ref ! i = index_list (label_lists s l_ref ! i) idx))"
proof (intro conjI allI impI)
  from ctr2_subsample_drawn [OF assms, of src] obtain s' where
    s': "ctr2_subsample src b_ref l_ref [0..<n] s = (None, s')"
      "length (box_lists s' b_ref) = n" "length (label_lists s' l_ref) = n"
      "\<forall>i<n. drawn_at src
            (rand_pos s + nat (ctr2_num s) *
               length (filter (\<lambda>j. ctr2_num s < int (size0 (box_lists s b_ref ! j))) [0..<i]))
            (ctr2_num s) (box_lists s b_ref ! i) (label_lists s l_ref ! i)
            (box_lists s' b_ref ! i) (label_lists s' l_ref ! i)"
    by blast
  have pt: "(ctr2_num s < int (size0 (box_lists s b_ref ! i)) \<longrightarrow>
             int (size0 (box_lists s' b_ref ! i)) = ctr2_num s
           \<and> int (length (label_lists s' l_ref ! i)) = ctr2_num s
           \<and> (\<forall>j \<in> set (drawn_positions src s b_ref i). j < size0 (box_lists s b_ref ! i))
           \<and> box_lists s' b_ref ! i = index_rows (box_lists s b_ref ! i) (drawn_positions src s b_ref i)
           \<and> label_lists s' l_ref ! i = index_list (label_lists s l_ref ! i) (drawn_positions src s b_ref i))
        \<and> (int (size0 (box_lists s b_ref ! i)) \<le> ctr2_num s \<longrightarrow>
             box_lists s' b_ref ! i = box_lists s b_ref ! i
           \<and> label_lists s' l_ref ! i = label_lists s l_ref ! i)" if i: "i < n" for i
  proof (cases "ctr2_num s < int (size0 (box_lists s b_ref ! i))")
    case False
    then show ?thesis using s'(4) i by (simp add: drawn_at_def)
  next
    case True
    then have pos: "0 < size0 (box_lists s b_ref ! i)" using assms(4) by simp
    have eq: "box_lists s' b_ref ! i = index_rows (box_lists s b_ref ! i) (drawn_positions src s b_ref i)"
        "label_lists s' l_ref ! i = index_list (label_lists s l_ref ! i) (drawn_positions src s b_ref i)"
      using s'(4) i True by (simp_all add: drawn_at_def drawn_positions_def)
    have len: "int (length (drawn_positions src s b_ref i)) = ctr2_num s"
      unfolding drawn_positions_def using assms(4) by (rule length_draws)
    have rng: "\<forall>j \<in> set (drawn_positions src s b_ref i). j < size0 (box_lists s b_ref ! i)"
      unfolding drawn_positions_def using pos by (rule draws_range)
    have "int (size0 (box_lists s' b_ref ! i)) = ctr2_num s"
        "int (length (label_lists s' l_ref ! i)) = ctr2_num s"
      unfolding eq using len by (simp_all add: index_rows_def index_list_def size0_def)
    then show ?thesis using True eq rng by simp
  qed
  show "\<exists>s'. ctr2_subsample src b_ref l_ref [0..<n] s = (None, s')
     \<and> length (box_lists s' b_ref) = n \<and> length (label_lists s' l_ref) = n
     \<and> (\<forall>i<n.
          (ctr2_num s < int (size0 (box_lists s b_ref ! i)) \<longrightarrow>
             int (size0 (box_lists s' b_ref ! i)) = ctr2_num s
           \<and> int (length (label_lists s' l_ref ! i)) = ctr2_num s
           \<and> (\<forall>j \<in> set (drawn_positions src s b_ref i). j < size0 (box_lists s b_ref ! i))
           \<and> box_lists s' b_ref ! i = index_rows (box_lists s b_ref ! i) (drawn_positions src s b_ref i)
           \<and> label_lists s' l_ref ! i = index_list (label_lists s l_ref ! i) (drawn_positions src s b_ref i))
        \<and> (int (size0 (box_lists s b_ref ! i)) \<le> ctr2_num s \<longrightarrow>
             box_lists s' b_ref ! i = box_lists s b_ref ! i
           \<and> label_lists s' l_ref ! i = label_lists s l_ref ! i))"
    by (rule exI [of _ s']) (use s'(1-3) pt in blast)
next
  fix i idx
  assume i: "i < n"
    and h: "ctr2_num s < int (size0 (box_lists s b_ref ! i)) \<and> int (length idx) = ctr2_num s
          \<and> (\<forall>j \<in> set idx. j < size0 (box_lists s b_ref ! i))"
  define p where "p = rand_pos s + nat (ctr2_num s) *
               length (filter (\<lambda>j. ctr2_num s < int (size0 (box_lists s b_ref ! j))) [0..<i])"
  define src' where "src' = (\<lambda>k. idx ! (k - p))"
  from ctr2_subsample_drawn [OF assms, of src'] obtain s'' where
    s'': "ctr2_subsample src' b_ref l_ref [0..<n] s = (None, s'')"
      "\<forall>i<n. drawn_at src'
            (rand_pos s + nat (ctr2_num s) *
               length (filter (\<lambda>j. ctr2_num s < int (size0 (box_lists s b_ref ! j))) [0..<i]))
            (ctr2_num s) (box_lists s b_ref ! i) (label_lists s l_ref ! i)
            (box_lists s'' b_ref ! i) (label_lists s'' l_ref ! i)"
    by blast
  have dr: "draws src' p (size0 (box_lists s b_ref ! i)) (ctr2_num s) = idx"
    unfolding src'_def using h by (intro draws_any) simp_all
  have "drawn_at src' p (ctr2_num s) (box_lists s b_ref ! i) (label_lists s l_ref ! i)
            (box_lists s'' b_ref ! i) (label_lists s'' l_ref ! i)"
    using s''(2) i unfolding p_def by blast
  then have "box_lists s'' b_ref ! i = index_rows (box_lists s b_ref ! i) idx
             \<and> label_lists s'' l_ref ! i = index_list (label_lists s l_ref ! i) idx"
    using h dr by (simp add: drawn_at_def)
  then show "\<exists>src' s''. ctr2_subsample src' b_ref l_ref [0..<n] s = (None, s'')
             \<and> box_lists s'' b_ref ! i = index_rows (box_lists s b_ref ! i) idx
             \<and> label_lists s'' l_ref ! i = index_list (label_lists s l_ref ! i) idx"
    using s''(1) by blast
qed

theorem ctr2_subsample_images_witness:
  "fst (ctr2_subsample (\<lambda>n. n) 0 0 [0..<2] (toy_state [toy_boxes [0, 1, 2], toy_boxes [0]] [[5, 6, 7], [8]])) = None
   \<and> drawn_positions (\<lambda>n. n) (toy_state [toy_boxes [0, 1, 2], toy_boxes [0]] [[5, 6, 7], [8]]) 0 0 = [0, 1]
   \<and> box_lists (snd (ctr2_subsample (\<lambda>n. n) 0 0 [0..<2]
        (toy_state [toy_boxes [0, 1, 2], toy_boxes [0]] [[5, 6, 7], [8]]))) 0
      = [toy_boxes [0, 1], toy_boxes [0]]
   \<and> label_lists (snd (ctr2_subsample (\<lambda>n. n) 0 0 [0..<2]
        (toy_state [toy_boxes [0, 1, 2], toy_boxes [0]] [[5, 6, 7], [8]]))) 0 = [[5, 6], [8]]"
proof -
  let ?s = "toy_state [toy_boxes [0, 1, 2], toy_boxes [0]] [[5, 6, 7], [8]]"
  let ?s' = "snd (ctr2_subsample (\<lambda>n. n) 0 0 [0..<2] ?s)"
  have h: "length (box_lists ?s 0) = 2" "length (label_lists ?s 0) = 2" "0 \<le> ctr2_num ?s"
    by (simp_all add: toy_state_def)
  have h3: "\<forall>i<2. size0 (box_lists ?s 0 ! i) = length (label_lists ?s 0 ! i)
               \<and> label_lists ?s 0 ! i \<noteq> []"
    by (auto simp: toy_state_def toy_boxes_def size0_def less_2_cases_iff)
  have c: "ctr2_num ?s = 2" "size0 (toy_boxes [0, 1, 2]) = 3" "size0 (toy_boxes [0]) = 1"
      "box_lists ?s 0 ! 0 = toy_boxes [0, 1, 2]" "box_lists ?s 0 ! 1 = toy_boxes [0]"
      "label_lists ?s 0 ! 0 = [5, 6, 7]" "label_lists ?s 0 ! 1 = [8]"
    by (simp_all add: toy_state_def toy_boxes_def size0_def)
  have dp: "drawn_positions (\<lambda>n. n) ?s 0 0 = [0, 1]"
    by (simp add: drawn_positions_def draws_def c upt_rec) (simp add: toy_state_def)
  from ctr2_subsample_images [OF h(1,2) h3 h(3), of "\<lambda>n. n", THEN conjunct1] obtain s' where
    s': "ctr2_subsample (\<lambda>n. n) 0 0 [0..<2] ?s = (None, s')"
      "length (box_lists s' 0) = 2" "length (label_lists s' 0) = 2"
      "\<forall>i<2.
          (ctr2_num ?s < int (size0 (box_lists ?s 0 ! i)) \<longrightarrow>
             box_lists s' 0 ! i = index_rows (box_lists ?s 0 ! i) (drawn_positions (\<lambda>n. n) ?s 0 i)
           \<and> label_lists s' 0 ! i = index_list (label_lists ?s 0 ! i) (drawn_positions (\<lambda>n. n) ?s 0 i))
        \<and> (int (size0 (box_lists ?s 0 ! i)) \<le> ctr2_num ?s \<longrightarrow>
             box_lists s' 0 ! i = box_lists ?s 0 ! i
           \<and> label_lists s' 0 ! i = label_lists ?s 0 ! i)"
    by blast
  have 0: "box_lists s' 0 ! 0 = toy_boxes [0, 1]" "label_lists s' 0 ! 0 = [5, 6]"
    using s'(4) c dp by (simp_all add: index_rows_def index_list_def toy_boxes_def)
  have 1: "box_lists s' 0 ! 1 = toy_boxes [0]" "label_lists s' 0 ! 1 = [8]"
    using s'(4) c by simp_all
  have "box_lists s' 0 = [box_lists s' 0 ! 0, box_lists s' 0 ! 1]"
    using s'(2) by (auto simp: list_eq_iff_nth_eq less_2_cases_iff)
  moreover have "label_lists s' 0 = [label_lists s' 0 ! 0, label_lists s' 0 ! 1]"
    using s'(3) by (auto simp: list_eq_iff_nth_eq less_2_cases_iff)
  ultimately show ?thesis using s'(1) 0 1 dp by simp
qed

text \<open>
  Claim C7 as stated, with exactly \<^verbatim>\<open>ctr2_num\<close> boxes chosen from the image's boxes, fails
  when a position is drawn twice: for an image with three boxes, \<^verbatim>\<open>ctr2_num = 2\<close> and
  draws that both give position 0, the image is left with two rows that are the same
  box, so with one of its boxes.
\<close>

theorem repeated_draw_counterexample:
  "ctr2_num (toy_state [toy_boxes [0, 1, 2]] [[5, 6, 7]]) = 2
   \<and> fst (ctr2_subsample (\<lambda>n. 0) 0 0 [0..<1] (toy_state [toy_boxes [0, 1, 2]] [[5, 6, 7]])) = None
   \<and> map rows (box_lists (snd (ctr2_subsample (\<lambda>n. 0) 0 0 [0..<1]
        (toy_state [toy_boxes [0, 1, 2]] [[5, 6, 7]]))) 0)
      = [[[0, 0, 4, 4], [0, 0, 4, 4]]]
   \<and> label_lists (snd (ctr2_subsample (\<lambda>n. 0) 0 0 [0..<1]
        (toy_state [toy_boxes [0, 1, 2]] [[5, 6, 7]]))) 0 = [[5, 5]]
   \<and> card (set [[0, 0, 4, 4], [0, 0, 4, 4 :: real]]) = 1"
  by (simp add: toy_state_def toy_boxes_def size0_def py_nth_def randint_def index_rows_def
      index_list_def upt_rec)

subsection \<open>What the random choices leave untouched\<close>









subsection \<open>C10: the subsampling is visible in the caller's lists\<close>



subsection \<open>C3: one call of the queue update per evaluation\<close>



















subsection \<open>C5: batches and images without positives\<close>













end
